theory Spec2Isabelle
  imports Complex_Main "HOL-Library.AList" "HOL-Library.Word"
begin

section \<open>The direct-network download manager (http-media-manager.ts)\<close>

text \<open>
  A shallow embedding of the class \<^verbatim>\<open>HttpMediaManager\<close>. The state is the two private
  maps of the class, the segment objects the class is handed (a store from addresses to
  their fields, since the class keeps references to them and writes into them), and
  everything the class does to the outside (events it emits, requests it sends or
  aborts, hooks it calls). Every public method and every XMLHttpRequest listener is a
  function on that state. The clock \<^verbatim>\<open>performance.now()\<close> is an argument \<open>now\<close> of every
  function that reads it. Hooks are taken to return normally and to leave the segment
  objects as they are.
\<close>

subsection \<open>Numbers\<close>

text \<open>
  A JavaScript number is a double: a finite value, an infinity or NaN. Finite values
  are kept as reals; a sum of two finite values is rounded to the nearest double, ties
  to the even significand, with 53 significant bits, the least exponent -1074 of the
  subnormals, and overflow to an infinity from 2 to the power 1024. Comparisons with NaN
  are false. Priorities and byte counts are integers, on which the arithmetic of doubles
  is exact below 2 to the power 53: they are \<open>int\<close> and \<open>nat\<close>.
\<close>

datatype number = Finite real | PosInfinity | NegInfinity | NaN

definition roundHalfEven :: "real \<Rightarrow> int" where
  "roundHalfEven q =
     (let f = \<lfloor>q\<rfloor>; d = q - of_int f
      in if d < 1 / 2 then f else if 1 / 2 < d then f + 1 else if even f then f else f + 1)"

text \<open>
  The binary exponent of a nonzero value, the \<open>e\<close> with \<open>2\<^sup>e \<le> \<bar>x\<bar> < 2\<^sup>e\<^sup>+\<^sup>1\<close>, is found by
  a search from 0. The search stops after 1100 steps: beyond them the rounding below does
  not depend on the exponent (the value overflows, or is on the grid of the subnormals).
\<close>

fun findExponent :: "nat \<Rightarrow> real \<Rightarrow> int \<Rightarrow> int" where
  "findExponent 0 a e = e"
| "findExponent (Suc fuel) a e =
     (if a < power_int 2 e then findExponent fuel a (e - 1)
      else if power_int 2 (e + 1) \<le> a then findExponent fuel a (e + 1)
      else e)"

definition binaryExponent :: "real \<Rightarrow> int" where
  "binaryExponent x = findExponent 1100 \<bar>x\<bar> 0"

definition roundToDouble :: "real \<Rightarrow> number" where
  "roundToDouble x =
     (if x = 0 then Finite 0
      else
        let e = max (binaryExponent x - 52) (- 1074);
            r = of_int (roundHalfEven (x / power_int 2 e)) * power_int 2 e
        in if 2 ^ 1024 \<le> \<bar>r\<bar> then (if 0 < x then PosInfinity else NegInfinity)
           else Finite r)"

fun jsAdd :: "number \<Rightarrow> number \<Rightarrow> number" where
  "jsAdd (Finite a) (Finite b) = roundToDouble (a + b)"
| "jsAdd NaN b = NaN"
| "jsAdd a NaN = NaN"
| "jsAdd PosInfinity NegInfinity = NaN"
| "jsAdd NegInfinity PosInfinity = NaN"
| "jsAdd PosInfinity b = PosInfinity"
| "jsAdd a PosInfinity = PosInfinity"
| "jsAdd NegInfinity b = NegInfinity"
| "jsAdd a NegInfinity = NegInfinity"

fun jsLess :: "number \<Rightarrow> number \<Rightarrow> bool" where
  "jsLess (Finite a) (Finite b) = (a < b)"
| "jsLess NaN b = False"
| "jsLess a NaN = False"
| "jsLess a NegInfinity = False"
| "jsLess PosInfinity b = False"
| "jsLess NegInfinity b = True"
| "jsLess a PosInfinity = True"

definition jsGreater :: "number \<Rightarrow> number \<Rightarrow> bool" where
  "jsGreater a b = jsLess b a"

subsection \<open>Data\<close>

type_synonym bytes = "8 word list"

text \<open>
  Modelled from the spec: the type \<^verbatim>\<open>Segment\<close> of loader-interface.ts, which is not
  among the sources. Only the fields the manager reads or writes are kept: the id, the
  literal manifest URL, the optional byte range, the priority, and the request and
  response URLs the manager fills in. A segment is an object: the manager is handed its
  address (\<open>segRef\<close>), keeps that address in the request record and in the closures of
  the listeners, and reads and writes the fields through it.
\<close>

record segment =
  segId :: string
  url :: string
  segRange :: "string option"
  priority :: int
  requestUrl :: "string option"
  responseUrl :: "string option"

type_synonym segRef = nat

text \<open>
  What the manager sets on a fresh XMLHttpRequest: \<^verbatim>\<open>open("GET", url, true)\<close>, the
  response type and the request headers. \<^verbatim>\<open>setupXhrEvents\<close> then registers four
  listeners on it; what they close over (the segment and the pieces kept for
  reassembly) is kept with the request they listen to.
\<close>

record xhrConfig =
  openMethod :: string
  openUrl :: string
  responseType :: string
  requestHeaders :: "(string \<times> string) list"

record xhr = xhrConfig +
  listenerSegment :: segRef
  listenerPieces :: "bytes list option"

text \<open>What a listener or a method reads from the XMLHttpRequest at the moment it runs.\<close>

record response =
  status :: int
  responseBody :: bytes
  responseURL :: "string option"

record progressEvent =
  loaded :: int
  total :: int
  lengthComputable :: bool

text \<open>
  The promise the validator returns settles by resolving or by rejecting; a validator
  that is not an async function may also throw before it returns a promise.
\<close>

datatype settlement = Resolves | Rejects string

datatype validation = Promise settlement | Throws string

record settings =
  httpFailedSegmentTimeout :: number
  httpUseRanges :: bool
  requiredSegmentsPriority :: int
  skipSegmentBuilderPriority :: int
  segmentValidator :: "(segment \<Rightarrow> bytes \<Rightarrow> validation) option"
  xhrSetup :: "(xhr \<Rightarrow> string \<Rightarrow> unit) option"
  segmentUrlBuilder :: "(segment \<Rightarrow> string) option"

record request =
  xhr :: xhr
  segment :: segRef
  initialPriority :: int
  segmentUrl :: string

datatype cause = HttpStatus int | NetworkError | Timeout | ValidatorRejected string

datatype event =
    SegmentStartLoad segRef
  | SegmentLoaded segRef bytes
  | SegmentError segRef cause
  | SegmentSize segRef int
  | BytesDownloaded segRef int

text \<open>
  Listeners run inside \<^verbatim>\<open>emit\<close>, so what they can observe through
  \<^verbatim>\<open>isDownloading\<close> is the in-flight set of that moment: an emitted event is logged
  with the ids in flight when it is emitted. The validator is called with a copy of the
  segment's fields, which is what the call is logged with.
\<close>

datatype effect =
    Emit event "string list"
  | XhrSend xhr
  | XhrAbort xhr
  | UrlBuilderCall segRef
  | XhrSetupCall xhr string
  | ValidatorCall segment bytes

text \<open>
  A JavaScript \<^verbatim>\<open>Map\<close> keeps its keys distinct and in insertion order: an association
  list, with \<open>AList.update\<close> for \<^verbatim>\<open>set\<close> and \<open>AList.delete\<close> for \<^verbatim>\<open>delete\<close>.
\<close>

record state =
  heap :: "segRef \<Rightarrow> segment"
  xhrRequests :: "(string \<times> request) list"
  failedSegments :: "(string \<times> number) list"
  effects :: "effect list"

datatype error = Error string

definition initial :: "(segRef \<Rightarrow> segment) \<Rightarrow> state" where
  "initial h = \<lparr>heap = h, xhrRequests = [], failedSegments = [], effects = []\<rparr>"

definition wellFormed :: "state \<Rightarrow> bool" where
  "wellFormed st =
     (distinct (map fst (xhrRequests st)) \<and> distinct (map fst (failedSegments st)))"

subsection \<open>Queries\<close>

definition isDownloading :: "state \<Rightarrow> segRef \<Rightarrow> bool" where
  "isDownloading st seg = (map_of (xhrRequests st) (segId (heap st seg)) \<noteq> None)"

definition isFailed :: "real \<Rightarrow> state \<Rightarrow> segRef \<Rightarrow> bool" where
  "isFailed now st seg =
     (case map_of (failedSegments st) (segId (heap st seg)) of
        None \<Rightarrow> False
      | Some time \<Rightarrow> jsGreater time (Finite now))"

definition getActiveDownloads :: "state \<Rightarrow> (string \<times> request) list" where
  "getActiveDownloads st = xhrRequests st"

definition getActiveDownloadsCount :: "state \<Rightarrow> nat" where
  "getActiveDownloadsCount st = length (xhrRequests st)"

subsection \<open>Helpers of the class\<close>

definition emit :: "event \<Rightarrow> state \<Rightarrow> state" where
  "emit ev st = st\<lparr>effects := effects st @ [Emit ev (map fst (xhrRequests st))]\<rparr>"

definition perform :: "effect \<Rightarrow> state \<Rightarrow> state" where
  "perform e st = st\<lparr>effects := effects st @ [e]\<rparr>"

text \<open>An assignment to a field of a segment object.\<close>

definition writeSegment :: "segRef \<Rightarrow> (segment \<Rightarrow> segment) \<Rightarrow> state \<Rightarrow> state" where
  "writeSegment seg f st = st\<lparr>heap := (heap st)(seg := f (heap st seg))\<rparr>"

definition cleanTimedOutFailedSegments :: "real \<Rightarrow> state \<Rightarrow> state" where
  "cleanTimedOutFailedSegments now st =
     (let candidates =
            map fst (filter (\<lambda>(k, time). jsLess time (Finite now)) (failedSegments st))
      in st\<lparr>failedSegments := fold AList.delete candidates (failedSegments st)\<rparr>)"

definition buildSegmentUrl :: "settings \<Rightarrow> state \<Rightarrow> segRef \<Rightarrow> string \<times> state" where
  "buildSegmentUrl cfg st seg =
     (case segmentUrlBuilder cfg of
        Some builder \<Rightarrow> (builder (heap st seg), perform (UrlBuilderCall seg) st)
      | None \<Rightarrow> (url (heap st seg), st))"

text \<open>JavaScript truthiness of a \<^verbatim>\<open>string | undefined\<close>: the empty string is falsy.\<close>

definition truthy :: "string option \<Rightarrow> bool" where
  "truthy r = (case r of None \<Rightarrow> False | Some s \<Rightarrow> s \<noteq> [])"

text \<open>The loop \<^verbatim>\<open>for (const piece of downloadedPieces) bytesDownloaded += piece.byteLength\<close>.\<close>

definition bytesDownloaded :: "bytes list \<Rightarrow> nat" where
  "bytesDownloaded pieces = fold (\<lambda>piece n. n + length piece) pieces 0"

text \<open>A non-negative integer in a template literal: its decimal digits.\<close>

definition digit :: "nat \<Rightarrow> char" where
  "digit d = ''0123456789'' ! d"

fun decimal :: "nat \<Rightarrow> string" where
  "decimal n = (if n < 10 then [digit n] else decimal (n div 10) @ [digit (n mod 10)])"

declare decimal.simps [simp del]

definition setRequestHeader :: "string \<Rightarrow> string \<Rightarrow> xhrConfig \<Rightarrow> xhrConfig" where
  "setRequestHeader name v x = x\<lparr>requestHeaders := requestHeaders x @ [(name, v)]\<rparr>"

subsection \<open>Public methods\<close>

definition abort :: "state \<Rightarrow> segRef \<Rightarrow> state" where
  "abort st seg =
     (case map_of (xhrRequests st) (segId (heap st seg)) of
        Some req \<Rightarrow>
          (perform (XhrAbort (xhr req)) st)
            \<lparr>xhrRequests := AList.delete (segId (heap st seg)) (xhrRequests st)\<rparr>
      | None \<Rightarrow> st)"

text \<open>Lines 55 to 57 of \<^verbatim>\<open>download\<close>: the URL of the request.\<close>

definition resolveSegmentUrl :: "settings \<Rightarrow> state \<Rightarrow> segRef \<Rightarrow> string \<times> state" where
  "resolveSegmentUrl cfg st seg =
     (if priority (heap st seg) \<le> skipSegmentBuilderPriority cfg then (url (heap st seg), st)
      else buildSegmentUrl cfg st seg)"

text \<open>Lines 67 to 81 of \<^verbatim>\<open>download\<close>: the Range header, and the pieces that are kept
  for the load listener.\<close>

definition rangeRequest ::
  "settings \<Rightarrow> state \<Rightarrow> segRef \<Rightarrow> bytes list option \<Rightarrow> xhrConfig \<Rightarrow>
   xhrConfig \<times> bytes list option" where
  "rangeRequest cfg st seg downloadedPieces x =
     (if truthy (segRange (heap st seg)) then
        (case segRange (heap st seg) of
           Some r \<Rightarrow> (setRequestHeader ''Range'' r x, None)
         | None \<Rightarrow> (x, None))
      else
        (case downloadedPieces of
           Some ps \<Rightarrow>
             if httpUseRanges cfg then
               (setRequestHeader ''Range''
                  (''bytes='' @ decimal (bytesDownloaded ps) @ ''-'') x,
                Some ps)
             else (x, None)
         | None \<Rightarrow> (x, None)))"

text \<open>\<^verbatim>\<open>setupXhrEvents\<close> registers the four listeners, which close over the segment
  and the pieces; the listeners themselves are \<open>onProgress\<close>, \<open>onLoad\<close>, \<open>onError\<close>
  and \<open>onTimeout\<close> below.\<close>

definition setupXhrEvents :: "xhrConfig \<Rightarrow> segRef \<Rightarrow> bytes list option \<Rightarrow> xhr" where
  "setupXhrEvents x seg downloadedPieces =
     \<lparr>openMethod = openMethod x, openUrl = openUrl x, responseType = responseType x,
      requestHeaders = requestHeaders x,
      listenerSegment = seg, listenerPieces = downloadedPieces\<rparr>"

definition download :: "settings \<Rightarrow> real \<Rightarrow> state \<Rightarrow> segRef \<Rightarrow> bytes list option \<Rightarrow> state" where
  "download cfg now st seg downloadedPieces =
     (if isDownloading st seg then st
      else
        let st1 = cleanTimedOutFailedSegments now st;
            st2 = emit (SegmentStartLoad seg) st1;
            (segmentUrl, st3) = resolveSegmentUrl cfg st2 seg;
            st4 = writeSegment seg (\<lambda>s. s\<lparr>requestUrl := Some segmentUrl\<rparr>) st3;
            x0 = \<lparr>openMethod = ''GET'', openUrl = segmentUrl, responseType = ''arraybuffer'',
                  requestHeaders = []\<rparr>;
            (x1, pieces) = rangeRequest cfg st4 seg downloadedPieces x0;
            x2 = setupXhrEvents x1 seg pieces;
            st5 = (case xhrSetup cfg of
                     Some hook \<Rightarrow> perform (XhrSetupCall x2 segmentUrl) st4
                   | None \<Rightarrow> st4);
            st6 = st5\<lparr>xhrRequests :=
                    AList.update (segId (heap st5 seg))
                      \<lparr>xhr = x2, segment = seg, initialPriority = priority (heap st5 seg),
                       segmentUrl = segmentUrl\<rparr>
                      (xhrRequests st5)\<rparr>
        in perform (XhrSend x2) st6)"

definition updatePriority :: "settings \<Rightarrow> real \<Rightarrow> state \<Rightarrow> segRef \<Rightarrow> error + state" where
  "updatePriority cfg now st seg =
     (case map_of (xhrRequests st) (segId (heap st seg)) of
        None \<Rightarrow>
          Inl (Error (''Cannot update priority of not downloaded segment '' @
                      segId (heap st seg)))
      | Some req \<Rightarrow>
          Inr (if priority (heap st seg) \<le> skipSegmentBuilderPriority cfg \<and>
                  initialPriority req > skipSegmentBuilderPriority cfg \<and>
                  segmentUrl req \<noteq> url (heap st seg)
               then download cfg now (abort st seg) seg None
               else st))"

definition destroy :: "state \<Rightarrow> state" where
  "destroy st =
     st\<lparr>effects := effects st @ map (\<lambda>(k, req). XhrAbort (xhr req)) (xhrRequests st),
        xhrRequests := []\<rparr>"

subsection \<open>Listeners of an XMLHttpRequest and the end of a download\<close>

definition segmentFailure :: "settings \<Rightarrow> real \<Rightarrow> state \<Rightarrow> segRef \<Rightarrow> cause \<Rightarrow> response \<Rightarrow> state" where
  "segmentFailure cfg now st seg err resp =
     (let st1 = writeSegment seg (\<lambda>s. s\<lparr>responseUrl := responseURL resp\<rparr>) st;
          st2 = st1\<lparr>xhrRequests := AList.delete (segId (heap st1 seg)) (xhrRequests st1)\<rparr>;
          st3 = st2\<lparr>failedSegments :=
                  AList.update (segId (heap st2 seg))
                    (jsAdd (Finite now) (httpFailedSegmentTimeout cfg))
                    (failedSegments st2)\<rparr>
      in emit (SegmentError seg err) st3)"

text \<open>
  \<^verbatim>\<open>segmentDownloadFinished\<close> is an async function: it runs up to its \<^verbatim>\<open>await\<close> inside
  the load event, and the rest runs when the validator's promise settles. What is
  suspended is the segment, the payload and the promise; the XMLHttpRequest is read again
  when the rest runs, so its state of that moment is an argument of
  \<open>segmentDownloadFinished_resume\<close>. The part after the \<^verbatim>\<open>try\<close> block (delete, then emit)
  is \<open>segmentDownloadFinished_end\<close>; without a validator it runs at once.
\<close>

record suspended =
  awaitSegment :: segRef
  awaitData :: bytes
  awaitPromise :: settlement

datatype loadResult = Done state | Awaiting state suspended | Uncaught state string

definition segmentDownloadFinished_end :: "state \<Rightarrow> segRef \<Rightarrow> bytes \<Rightarrow> state" where
  "segmentDownloadFinished_end st seg data =
     emit (SegmentLoaded seg data)
       (st\<lparr>xhrRequests := AList.delete (segId (heap st seg)) (xhrRequests st)\<rparr>)"

definition segmentDownloadFinished ::
  "settings \<Rightarrow> real \<Rightarrow> state \<Rightarrow> segRef \<Rightarrow> bytes \<Rightarrow> response \<Rightarrow> loadResult" where
  "segmentDownloadFinished cfg now st seg data resp =
     (let st1 = writeSegment seg (\<lambda>s. s\<lparr>responseUrl := responseURL resp\<rparr>) st in
      case segmentValidator cfg of
        Some validator \<Rightarrow>
          (let st2 = perform (ValidatorCall (heap st1 seg) data) st1 in
           case validator (heap st1 seg) data of
             Throws e \<Rightarrow> Done (segmentFailure cfg now st2 seg (ValidatorRejected e) resp)
           | Promise p \<Rightarrow>
               Awaiting st2 \<lparr>awaitSegment = seg, awaitData = data, awaitPromise = p\<rparr>)
      | None \<Rightarrow> Done (segmentDownloadFinished_end st1 seg data))"

definition segmentDownloadFinished_resume ::
  "settings \<Rightarrow> real \<Rightarrow> state \<Rightarrow> suspended \<Rightarrow> response \<Rightarrow> state" where
  "segmentDownloadFinished_resume cfg now st w resp =
     (case awaitPromise w of
        Rejects e \<Rightarrow> segmentFailure cfg now st (awaitSegment w) (ValidatorRejected e) resp
      | Resolves \<Rightarrow> segmentDownloadFinished_end st (awaitSegment w) (awaitData w))"

text \<open>
  \<^verbatim>\<open>Uint8Array.prototype.set(source, offset)\<close> throws a RangeError when the source does
  not fit at the offset.
\<close>

definition typedArraySet :: "bytes \<Rightarrow> bytes \<Rightarrow> nat \<Rightarrow> bytes option" where
  "typedArraySet target src offset =
     (if offset + length src \<le> length target
      then Some (take offset target @ src @ drop (offset + length src) target)
      else None)"

definition copyPiece :: "bytes \<Rightarrow> (bytes \<times> nat) option \<Rightarrow> (bytes \<times> nat) option" where
  "copyPiece piece acc =
     (case acc of
        None \<Rightarrow> None
      | Some (segmentData, offset) \<Rightarrow>
          (case typedArraySet segmentData piece offset of
             None \<Rightarrow> None
           | Some segmentData' \<Rightarrow> Some (segmentData', offset + length piece)))"

text \<open>Lines 168 to 182 of the load listener: the buffer handed on after a 206.\<close>

definition reassemble :: "bytes list \<Rightarrow> bytes \<Rightarrow> bytes option" where
  "reassemble pieces data =
     (let segmentData = replicate (bytesDownloaded pieces + length data) 0 in
      case fold copyPiece pieces (Some (segmentData, 0)) of
        None \<Rightarrow> None
      | Some (segmentData', offset) \<Rightarrow> typedArraySet segmentData' data offset)"

text \<open>
  The progress listener; \<open>prevBytesLoaded\<close> is the variable of its closure, passed in
  and returned.
\<close>

definition onProgress :: "xhr \<Rightarrow> progressEvent \<Rightarrow> state \<times> int \<Rightarrow> state \<times> int" where
  "onProgress x ev acc =
     (case acc of (st, prevBytesLoaded) \<Rightarrow>
        let bytesLoaded = loaded ev - prevBytesLoaded;
            st1 = emit (BytesDownloaded (listenerSegment x) bytesLoaded) st;
            st2 = (if lengthComputable ev
                   then emit (SegmentSize (listenerSegment x) (total ev)) st1
                   else st1)
        in (st2, loaded ev))"

text \<open>All the progress notifications of one request, from \<open>prevBytesLoaded = 0\<close>.\<close>

definition progressAll :: "xhr \<Rightarrow> progressEvent list \<Rightarrow> state \<Rightarrow> state" where
  "progressAll x evs st = fst (fold (onProgress x) evs (st, 0))"

definition onLoad :: "settings \<Rightarrow> real \<Rightarrow> state \<Rightarrow> xhr \<Rightarrow> response \<Rightarrow> loadResult" where
  "onLoad cfg now st x resp =
     (if status resp < 200 \<or> status resp \<ge> 300 then
        Done (segmentFailure cfg now st (listenerSegment x) (HttpStatus (status resp)) resp)
      else
        (case listenerPieces x of
           Some pieces \<Rightarrow>
             if status resp = 206 then
               (case reassemble pieces (responseBody resp) of
                  Some data \<Rightarrow> segmentDownloadFinished cfg now st (listenerSegment x) data resp
                | None \<Rightarrow> Uncaught st ''RangeError'')
             else segmentDownloadFinished cfg now st (listenerSegment x) (responseBody resp) resp
         | None \<Rightarrow>
             segmentDownloadFinished cfg now st (listenerSegment x) (responseBody resp) resp))"

definition onError :: "settings \<Rightarrow> real \<Rightarrow> state \<Rightarrow> xhr \<Rightarrow> response \<Rightarrow> state" where
  "onError cfg now st x resp = segmentFailure cfg now st (listenerSegment x) NetworkError resp"

definition onTimeout :: "settings \<Rightarrow> real \<Rightarrow> state \<Rightarrow> xhr \<Rightarrow> response \<Rightarrow> state" where
  "onTimeout cfg now st x resp = segmentFailure cfg now st (listenerSegment x) Timeout resp"

fun stateOf :: "loadResult \<Rightarrow> state" where
  "stateOf (Done st) = st"
| "stateOf (Awaiting st w) = st"
| "stateOf (Uncaught st e) = st"

subsection \<open>Runs of the manager\<close>

text \<open>
  Everything that can happen to a manager: a call of a public method, an event of an
  XMLHttpRequest, the settling of a validator's promise, or the caller assigning a new
  priority to a segment object. An exception thrown by \<^verbatim>\<open>updatePriority\<close> goes to the
  caller and leaves the state as it was. A run is a list of such operations, each with
  the clock's value when it happens.
\<close>

datatype op =
    Download segRef "bytes list option"
  | UpdatePriority segRef
  | Abort segRef
  | Destroy
  | Progress xhr int progressEvent
  | Load xhr response
  | NetError xhr response
  | TimedOut xhr response
  | Settled suspended response
  | SetPriority segRef int

fun step :: "settings \<Rightarrow> real \<Rightarrow> op \<Rightarrow> state \<Rightarrow> state" where
  "step cfg now (Download seg pieces) st = download cfg now st seg pieces"
| "step cfg now (UpdatePriority seg) st =
     (case updatePriority cfg now st seg of Inl e \<Rightarrow> st | Inr st' \<Rightarrow> st')"
| "step cfg now (Abort seg) st = abort st seg"
| "step cfg now Destroy st = destroy st"
| "step cfg now (Progress x prev ev) st = fst (onProgress x ev (st, prev))"
| "step cfg now (Load x resp) st = stateOf (onLoad cfg now st x resp)"
| "step cfg now (NetError x resp) st = onError cfg now st x resp"
| "step cfg now (TimedOut x resp) st = onTimeout cfg now st x resp"
| "step cfg now (Settled w resp) st = segmentDownloadFinished_resume cfg now st w resp"
| "step cfg now (SetPriority seg p) st = writeSegment seg (\<lambda>s. s\<lparr>priority := p\<rparr>) st"

definition run :: "settings \<Rightarrow> (real \<times> op) list \<Rightarrow> state \<Rightarrow> state" where
  "run cfg trace st = fold (\<lambda>(now, operation). step cfg now operation) trace st"


subsection \<open>The spec's words\<close>

text \<open>
  Following the spec (4.1): segments with priority at most \<^verbatim>\<open>requiredSegmentsPriority\<close>
  are mandatory. \<open>spec_restart\<close> is the condition the spec gives for the
  abort-and-retry of \<^verbatim>\<open>updatePriority\<close>: the initial priority was non-mandatory, the
  segment has become mandatory, and the literal URL differs from the one in flight.
\<close>

definition spec_mandatory :: "settings \<Rightarrow> int \<Rightarrow> bool" where
  "spec_mandatory cfg p = (p \<le> requiredSegmentsPriority cfg)"

definition spec_restart :: "settings \<Rightarrow> request \<Rightarrow> segment \<Rightarrow> bool" where
  "spec_restart cfg req seg =
     (\<not> spec_mandatory cfg (initialPriority req) \<and> spec_mandatory cfg (priority seg) \<and>
      url seg \<noteq> segmentUrl req)"

subsection \<open>Sample values\<close>

text \<open>A configuration; three segment objects, \<open>segA\<close> and \<open>segA2\<close> for the same segment
  at priorities 5 and 2, and \<open>segB\<close> for a segment with a range; the requests that
  \<^verbatim>\<open>download\<close> builds for \<open>segA\<close> and \<open>segB\<close>; and the state in which \<open>segA\<close> is in
  flight under the rewritten URL and the id of \<open>segB\<close> is blacklisted until time 5.\<close>

definition cfg0 :: settings where
  "cfg0 = \<lparr>httpFailedSegmentTimeout = Finite 10000, httpUseRanges = True,
           requiredSegmentsPriority = 1, skipSegmentBuilderPriority = 3,
           segmentValidator = None, xhrSetup = None,
           segmentUrlBuilder = Some (\<lambda>s. ''cdn/'' @ segId s)\<rparr>"

definition segA :: segRef where
  "segA = 0"

definition segA2 :: segRef where
  "segA2 = 1"

definition segB :: segRef where
  "segB = 2"

definition heap0 :: "segRef \<Rightarrow> segment" where
  "heap0 r =
     (if r = 0 then
        \<lparr>segId = ''a'', url = ''o/a'', segRange = None, priority = 5,
         requestUrl = None, responseUrl = None\<rparr>
      else if r = 1 then
        \<lparr>segId = ''a'', url = ''o/a'', segRange = None, priority = 2,
         requestUrl = None, responseUrl = None\<rparr>
      else
        \<lparr>segId = ''b'', url = ''o/b'', segRange = Some ''bytes=0-99'', priority = 1,
         requestUrl = None, responseUrl = None\<rparr>)"

definition xhrA :: xhr where
  "xhrA = \<lparr>openMethod = ''GET'', openUrl = ''cdn/a'', responseType = ''arraybuffer'',
           requestHeaders = [], listenerSegment = segA, listenerPieces = None\<rparr>"

definition xhrB :: xhr where
  "xhrB = \<lparr>openMethod = ''GET'', openUrl = ''o/b'', responseType = ''arraybuffer'',
           requestHeaders = [(''Range'', ''bytes=0-99'')], listenerSegment = segB,
           listenerPieces = None\<rparr>"

definition reqA :: request where
  "reqA = \<lparr>xhr = xhrA, segment = segA, initialPriority = 5, segmentUrl = ''cdn/a''\<rparr>"

definition stA :: state where
  "stA = \<lparr>heap = heap0(segA := (heap0 segA)\<lparr>requestUrl := Some ''cdn/a''\<rparr>),
          xhrRequests = [(''a'', reqA)], failedSegments = [(''b'', Finite 5)], effects = []\<rparr>"

text \<open>A validator that rejects a payload of fewer than three bytes and accepts any
  other, a validator that moreover throws on an empty payload, and the configurations
  with them.\<close>

definition validatorB :: "segment \<Rightarrow> bytes \<Rightarrow> validation" where
  "validatorB seg data = Promise (if length data < 3 then Rejects ''short'' else Resolves)"


definition cfgB :: settings where
  "cfgB = cfg0\<lparr>segmentValidator := Some validatorB\<rparr>"


text \<open>The double nearest to 0.3, and the double nearest to 10000.3.\<close>

definition double_0_3 :: real where
  "double_0_3 = 5404319552844595 / 2 ^ 54"

definition double_10000_3 :: real where
  "double_10000_3 = 5497723065624166 / 2 ^ 39"

section \<open>Properties\<close>

subsection \<open>Numbers\<close>

lemma powi2_less: "power_int (2::real) k < power_int 2 e \<Longrightarrow> k < e"
  using power_int_increasing [of e k "2::real"] by (cases "k < e") simp_all

lemma findExponent_eq:
  "power_int 2 k \<le> a \<Longrightarrow> a < power_int 2 (k + 1) \<Longrightarrow> nat \<bar>k - e\<bar> \<le> fuel \<Longrightarrow>
   findExponent fuel a e = k"
proof (induction fuel arbitrary: e)
  case 0
  then show ?case by simp
next
  case (Suc fuel)
  consider "a < power_int 2 e" | "power_int 2 (e + 1) \<le> a"
    | "power_int 2 e \<le> a" "a < power_int 2 (e + 1)"
    by linarith
  then show ?case
  proof cases
    case 1
    with Suc.prems(1) have "power_int (2::real) k < power_int 2 e"
      by simp
    then have "k < e"
      by (rule powi2_less)
    with Suc.prems(3) have "nat \<bar>k - (e - 1)\<bar> \<le> fuel"
      by simp
    with Suc.IH [OF Suc.prems(1,2)] 1 show ?thesis
      by simp
  next
    case 2
    with Suc.prems(2) have "power_int (2::real) (e + 1) < power_int 2 (k + 1)"
      by simp
    then have lt: "e < k"
      using powi2_less [of "e + 1" "k + 1"] by simp
    with Suc.prems(3) have "nat \<bar>k - (e + 1)\<bar> \<le> fuel"
      by simp
    moreover from 2 have "\<not> a < power_int 2 e"
      using power_int_increasing [of e "e + 1" "2::real"] by simp
    ultimately show ?thesis
      using Suc.IH [OF Suc.prems(1,2)] 2 by simp
  next
    case 3
    from 3(1) Suc.prems(2) have "power_int (2::real) e < power_int 2 (k + 1)"
      by simp
    then have "e < k + 1"
      by (rule powi2_less)
    moreover from 3(2) Suc.prems(1) have "power_int (2::real) k < power_int 2 (e + 1)"
      by simp
    then have "k < e + 1"
      by (rule powi2_less)
    ultimately show ?thesis
      using 3 by simp
  qed
qed

lemma binaryExponent_eq:
  "power_int 2 k \<le> \<bar>x\<bar> \<Longrightarrow> \<bar>x\<bar> < power_int 2 (k + 1) \<Longrightarrow> \<bar>k\<bar> \<le> 1100 \<Longrightarrow>
   binaryExponent x = k"
  unfolding binaryExponent_def by (rule findExponent_eq) simp_all

lemma roundToDouble_10100: "roundToDouble 10100 = Finite 10100"
proof -
  have "binaryExponent 10100 = 13"
    by (rule binaryExponent_eq) (simp_all add: power_int_def)
  then show ?thesis
    by (simp add: roundToDouble_def Let_def roundHalfEven_def power_int_minus)
qed

lemma roundToDouble_double_0_3: "roundToDouble (double_0_3 + 10000) = Finite double_10000_3"
proof -
  have "binaryExponent (double_0_3 + 10000) = 13"
    by (rule binaryExponent_eq) (simp_all add: power_int_def double_0_3_def)
  moreover have "\<lfloor>(5404319552844595 / 18014398509481984 + 10000) * 549755813888 :: real\<rfloor> =
      5497723065624166"
    by (simp add: floor_eq_iff)
  ultimately show ?thesis
    by (simp add: roundToDouble_def Let_def roundHalfEven_def power_int_minus
        double_0_3_def double_10000_3_def)
qed

lemma jsLess_irrefl: "\<not> jsLess a a"
  by (cases a) simp_all

lemma jsLess_Finite_trans:
  "jsLess e (Finite u) \<Longrightarrow> u \<le> now \<Longrightarrow> \<not> jsLess (Finite now) e"
  by (cases e) simp_all

subsection \<open>Association lists\<close>

lemma length_delete_distinct:
  "distinct (map fst al) \<Longrightarrow> map_of al k \<noteq> None \<Longrightarrow>
   Suc (length (AList.delete k al)) = length al"
proof (induction al)
  case Nil
  then show ?case by simp
next
  case (Cons p al)
  show ?case
  proof (cases "fst p = k")
    case True
    with Cons.prems have "k \<notin> fst ` set al" by auto
    then have "AList.delete k al = al"
      by (simp add: AList.delete_id)
    with True show ?thesis by (cases p) (simp add: AList.delete_eq)
  next
    case False
    with Cons show ?thesis by (cases p) (auto simp: AList.delete_eq)
  qed
qed

lemma fold_delete_filter:
  "fold AList.delete ks al = filter (\<lambda>p. fst p \<notin> set ks) al"
proof (induction ks arbitrary: al)
  case Nil
  then show ?case by simp
next
  case (Cons k ks)
  have "fold AList.delete (k # ks) al = fold AList.delete ks (AList.delete k al)"
    by simp
  also have "\<dots> = filter (\<lambda>p. fst p \<notin> set ks) (AList.delete k al)"
    by (rule Cons.IH)
  also have "AList.delete k al = filter (\<lambda>p. fst p \<noteq> k) al"
    by (auto simp: AList.delete_eq case_prod_beta intro: filter_cong)
  finally show ?case
    by (auto intro: filter_cong)
qed

lemma distinct_fst_eq:
  "distinct (map fst al) \<Longrightarrow> p \<in> set al \<Longrightarrow> q \<in> set al \<Longrightarrow> fst p = fst q \<Longrightarrow> p = q"
  by (metis eq_key_imp_eq_value prod.collapse)

lemma map_of_filter_distinct:
  "distinct (map fst al) \<Longrightarrow>
   map_of (filter Q al) k =
     (case map_of al k of None \<Rightarrow> None | Some v \<Rightarrow> if Q (k, v) then Some v else None)"
proof (induction al)
  case Nil
  then show ?case by simp
next
  case (Cons p al)
  obtain k' v' where p: "p = (k', v')" by (cases p)
  show ?case
  proof (cases "k' = k")
    case True
    with Cons.prems p have "k \<notin> fst ` set al" by auto
    then have "map_of (filter Q al) k = None"
      by (auto simp: map_of_eq_None_iff)
    with True p show ?thesis by simp
  next
    case False
    with Cons p show ?thesis by simp
  qed
qed

subsection \<open>What a new download does\<close>

lemma resolveSegmentUrl_fst:
  "fst (resolveSegmentUrl cfg st seg) =
     (if priority (heap st seg) \<le> skipSegmentBuilderPriority cfg then url (heap st seg)
      else case segmentUrlBuilder cfg of
             Some builder \<Rightarrow> builder (heap st seg)
           | None \<Rightarrow> url (heap st seg))"
  by (simp add: resolveSegmentUrl_def buildSegmentUrl_def split: option.splits)

lemma resolveSegmentUrl_snd:
  "snd (resolveSegmentUrl cfg st seg) =
     st\<lparr>effects := effects st @
        (if priority (heap st seg) \<le> skipSegmentBuilderPriority cfg \<or>
            segmentUrlBuilder cfg = None
         then [] else [UrlBuilderCall seg])\<rparr>"
  by (simp add: resolveSegmentUrl_def buildSegmentUrl_def perform_def split: option.splits)

lemma rangeRequest_fst:
  "fst (rangeRequest cfg st seg pieces x) =
     x\<lparr>requestHeaders := requestHeaders x @
        (if truthy (segRange (heap st seg)) then [(''Range'', the (segRange (heap st seg)))]
         else if pieces \<noteq> None \<and> httpUseRanges cfg
         then [(''Range'', ''bytes='' @ decimal (bytesDownloaded (the pieces)) @ ''-'')]
         else [])\<rparr>"
  by (simp add: rangeRequest_def setRequestHeader_def truthy_def split: option.splits)

lemma rangeRequest_snd:
  "snd (rangeRequest cfg st seg pieces x) =
     (if \<not> truthy (segRange (heap st seg)) \<and> httpUseRanges cfg then pieces else None)"
  by (simp add: rangeRequest_def truthy_def split: option.splits)

lemma download_new:
  "\<not> isDownloading st seg \<Longrightarrow>
   download cfg now st seg pieces =
     (let s = heap st seg;
          u = (if priority s \<le> skipSegmentBuilderPriority cfg then url s
               else case segmentUrlBuilder cfg of Some builder \<Rightarrow> builder s | None \<Rightarrow> url s);
          x = \<lparr>openMethod = ''GET'', openUrl = u, responseType = ''arraybuffer'',
               requestHeaders =
                 (if truthy (segRange s) then [(''Range'', the (segRange s))]
                  else if pieces \<noteq> None \<and> httpUseRanges cfg
                  then [(''Range'', ''bytes='' @ decimal (bytesDownloaded (the pieces)) @ ''-'')]
                  else []),
               listenerSegment = seg,
               listenerPieces =
                 (if \<not> truthy (segRange s) \<and> httpUseRanges cfg then pieces else None)\<rparr>
      in st\<lparr>heap := (heap st)(seg := s\<lparr>requestUrl := Some u\<rparr>),
            xhrRequests :=
              AList.update (segId s)
                \<lparr>xhr = x, segment = seg, initialPriority = priority s, segmentUrl = u\<rparr>
                (xhrRequests st),
            failedSegments := failedSegments (cleanTimedOutFailedSegments now st),
            effects := effects st @ [Emit (SegmentStartLoad seg) (map fst (xhrRequests st))] @
              (if priority s \<le> skipSegmentBuilderPriority cfg \<or> segmentUrlBuilder cfg = None
               then [] else [UrlBuilderCall seg]) @
              (if xhrSetup cfg = None then [] else [XhrSetupCall x u]) @ [XhrSend x]\<rparr>)"
  by (cases "xhrSetup cfg")
    (simp_all add: download_def Let_def split_def rangeRequest_snd rangeRequest_fst
      resolveSegmentUrl_snd resolveSegmentUrl_fst emit_def cleanTimedOutFailedSegments_def
      perform_def setupXhrEvents_def writeSegment_def isDownloading_def
      split del: if_split cong del: if_weak_cong option.case_cong_weak)

subsection \<open>The sample state is the state after a first download\<close>

lemma stA_reached:
  "download cfg0 0 ((initial heap0)\<lparr>failedSegments := [(''b'', Finite 5)]\<rparr>) segA None =
     stA\<lparr>effects := [Emit (SegmentStartLoad segA) [], UrlBuilderCall segA, XhrSend xhrA]\<rparr>"
  by (simp add: download_def isDownloading_def initial_def segA_def cfg0_def stA_def reqA_def
      xhrA_def heap0_def cleanTimedOutFailedSegments_def emit_def perform_def
      buildSegmentUrl_def resolveSegmentUrl_def rangeRequest_def setupXhrEvents_def
      writeSegment_def truthy_def Let_def)

subsection \<open>Protocol-usage error\<close>

text \<open>C5: for a segment with no in-flight request, \<^verbatim>\<open>updatePriority\<close> throws: the
  result is the error, with the message of the source, and nothing else, so no state
  other than the one before the call exists after it.\<close>

theorem updatePriority_not_downloading_throws:
  "\<not> isDownloading st seg \<Longrightarrow>
   updatePriority cfg now st seg =
     Inl (Error (''Cannot update priority of not downloaded segment '' @ segId (heap st seg)))"
  by (simp add: updatePriority_def isDownloading_def)

theorem updatePriority_not_downloading_throws_witness:
  "\<not> isDownloading (initial heap0) segA \<and>
   updatePriority cfg0 0 (initial heap0) segA =
     Inl (Error ''Cannot update priority of not downloaded segment a'')"
  using updatePriority_not_downloading_throws [of "initial heap0" segA cfg0 0]
  by (simp add: isDownloading_def initial_def segA_def heap0_def)

subsection \<open>Cancellation\<close>

lemma abort_not_downloading: "\<not> isDownloading st seg \<Longrightarrow> abort st seg = st"
  by (simp add: abort_def isDownloading_def)

lemma not_downloading_abort: "\<not> isDownloading (abort st seg) seg"
  by (auto simp: abort_def isDownloading_def perform_def AList.delete_conv split: option.splits)

lemma abort_in_flight:
  "map_of (xhrRequests st) (segId (heap st seg)) = Some req \<Longrightarrow>
   abort st seg =
     st\<lparr>effects := effects st @ [XhrAbort (xhr req)],
        xhrRequests := AList.delete (segId (heap st seg)) (xhrRequests st)\<rparr>"
  by (simp add: abort_def perform_def)

text \<open>C9: \<^verbatim>\<open>abort\<close> is idempotent. On a segment with no in-flight request it returns
  the state as it is; a second abort changes nothing the first left; after an abort the
  segment is not in flight, the blacklist, the segment objects and the other requests
  are as before, and when the segment was in flight the count of active downloads is
  smaller by one.\<close>

theorem abort_idempotent:
  "(\<not> isDownloading st seg \<longrightarrow> abort st seg = st) \<and>
   abort (abort st seg) seg = abort st seg \<and>
   \<not> isDownloading (abort st seg) seg \<and>
   failedSegments (abort st seg) = failedSegments st \<and>
   heap (abort st seg) = heap st \<and>
   (\<forall>k. k \<noteq> segId (heap st seg) \<longrightarrow>
      map_of (xhrRequests (abort st seg)) k = map_of (xhrRequests st) k) \<and>
   (wellFormed st \<and> isDownloading st seg \<longrightarrow>
      Suc (getActiveDownloadsCount (abort st seg)) = getActiveDownloadsCount st)"
proof (intro conjI impI allI)
  show "abort (abort st seg) seg = abort st seg"
    by (rule abort_not_downloading) (rule not_downloading_abort)
  show "failedSegments (abort st seg) = failedSegments st"
    by (simp add: abort_def perform_def split: option.splits)
  show "heap (abort st seg) = heap st"
    by (simp add: abort_def perform_def split: option.splits)
  show "map_of (xhrRequests (abort st seg)) k = map_of (xhrRequests st) k"
    if "k \<noteq> segId (heap st seg)" for k
    using that by (simp add: abort_def perform_def AList.delete_conv split: option.splits)
  show "Suc (getActiveDownloadsCount (abort st seg)) = getActiveDownloadsCount st"
    if "wellFormed st \<and> isDownloading st seg"
    using that length_delete_distinct [of "xhrRequests st" "segId (heap st seg)"]
    by (auto simp: abort_def perform_def getActiveDownloadsCount_def wellFormed_def
        isDownloading_def split: option.splits)
qed (simp_all add: abort_not_downloading not_downloading_abort)

theorem abort_idempotent_witness:
  "wellFormed stA \<and> isDownloading stA segA \<and> getActiveDownloadsCount stA = 1 \<and>
   getActiveDownloadsCount (abort stA segA) = 0 \<and>
   \<not> isDownloading (abort stA segA) segA \<and>
   abort (abort stA segA) segA = abort stA segA \<and>
   \<not> isDownloading stA segB \<and> abort stA segB = stA"
  using abort_idempotent [of stA segA] abort_idempotent [of stA segB]
  by (simp add: isDownloading_def stA_def segA_def segB_def heap0_def wellFormed_def
      getActiveDownloadsCount_def)

subsection \<open>A second download of a segment in flight\<close>

text \<open>C10: \<^verbatim>\<open>download\<close> of a segment that already has an in-flight request returns
  the state unchanged: the request table (with the recorded initial priority and
  request URL), the blacklist (not purged), the segment objects and the effects (no
  event emitted, nothing sent) are all as before.\<close>

theorem download_in_flight_noop:
  "isDownloading st seg \<Longrightarrow> download cfg now st seg pieces = st"
  by (simp add: download_def)

theorem download_in_flight_noop_witness:
  "isDownloading stA segA \<and> download cfg0 10 stA segA None = stA \<and>
   failedSegments (download cfg0 10 stA segA None) = [(''b'', Finite 5)]"
  using download_in_flight_noop [of stA segA cfg0 10 None]
  by (simp add: isDownloading_def stA_def segA_def heap0_def)

subsection \<open>The URL of a request\<close>

text \<open>C6: a download of a segment that is not yet in flight records, opens and sends a
  request for that segment object, and writes the URL of the request into the object.
  The URL is the literal manifest URL when the priority is at most
  \<^verbatim>\<open>skipSegmentBuilderPriority\<close>, and then the URL builder is not called (no call is
  added to the effects); above the threshold the URL is what the configured builder
  returns, and the literal URL when no builder is configured.\<close>

theorem download_request_url:
  "\<not> isDownloading st seg \<Longrightarrow>
   (\<exists>req. map_of (xhrRequests (download cfg now st seg pieces)) (segId (heap st seg)) = Some req \<and>
      segment req = seg \<and>
      openUrl (xhr req) = segmentUrl req \<and>
      requestUrl (heap (download cfg now st seg pieces) seg) = Some (segmentUrl req) \<and>
      last (effects (download cfg now st seg pieces)) = XhrSend (xhr req) \<and>
      (priority (heap st seg) \<le> skipSegmentBuilderPriority cfg \<longrightarrow>
         segmentUrl req = url (heap st seg) \<and>
         (\<forall>s. UrlBuilderCall s \<in> set (effects (download cfg now st seg pieces)) \<longrightarrow>
              UrlBuilderCall s \<in> set (effects st))) \<and>
      (skipSegmentBuilderPriority cfg < priority (heap st seg) \<longrightarrow>
         segmentUrl req =
           (case segmentUrlBuilder cfg of
              Some builder \<Rightarrow> builder (heap st seg)
            | None \<Rightarrow> url (heap st seg))))"
  by (simp add: download_new Let_def AList.update_conv')

theorem download_request_url_witness:
  "\<not> isDownloading (initial heap0) segA \<and>
   map_of (xhrRequests (download cfg0 0 (initial heap0) segA None)) ''a'' = Some reqA \<and>
   skipSegmentBuilderPriority cfg0 < priority (heap0 segA) \<and> segmentUrl reqA = ''cdn/a'' \<and>
   requestUrl (heap (download cfg0 0 (initial heap0) segA None) segA) = Some ''cdn/a'' \<and>
   \<not> isDownloading (initial heap0) segA2 \<and>
   priority (heap0 segA2) \<le> skipSegmentBuilderPriority cfg0 \<and>
   map_option segmentUrl
     (map_of (xhrRequests (download cfg0 0 (initial heap0) segA2 None)) ''a'') =
     Some ''o/a''"
  using download_request_url [of "initial heap0" segA cfg0 0 None]
    download_request_url [of "initial heap0" segA2 cfg0 0 None]
  by (auto simp: isDownloading_def initial_def segA_def segA2_def heap0_def cfg0_def reqA_def
      xhrA_def download_def Let_def cleanTimedOutFailedSegments_def emit_def perform_def
      buildSegmentUrl_def resolveSegmentUrl_def rangeRequest_def setupXhrEvents_def
      writeSegment_def truthy_def)

subsection \<open>A change of priority while in flight\<close>

text \<open>C1, as stated, with mandatory read as the spec defines it (priority at most
  \<^verbatim>\<open>requiredSegmentsPriority\<close>), fails in both directions. With
  \<^verbatim>\<open>requiredSegmentsPriority = 1\<close> and \<^verbatim>\<open>skipSegmentBuilderPriority = 3\<close>, a request
  started at priority 5 under a rewritten URL is aborted and restarted when
  \<^verbatim>\<open>updatePriority\<close> is called with the segment at priority 2, which is not mandatory.
  With the two thresholds exchanged (3 and 1), the same segment has become mandatory and
  the request is left as it is.\<close>

theorem updatePriority_mandatory_counterexample:
  "map_of (xhrRequests stA) (segId (heap stA segA2)) = Some reqA \<and>
   \<not> spec_restart cfg0 reqA (heap stA segA2) \<and>
   updatePriority cfg0 10 stA segA2 \<noteq> Inr stA \<and>
   spec_restart (cfg0\<lparr>requiredSegmentsPriority := 3, skipSegmentBuilderPriority := 1\<rparr>) reqA
     (heap stA segA2) \<and>
   updatePriority (cfg0\<lparr>requiredSegmentsPriority := 3, skipSegmentBuilderPriority := 1\<rparr>) 10 stA
     segA2 = Inr stA"
proof -
  have "effects (download cfg0 10 (abort stA segA2) segA2 None) \<noteq> effects stA"
    by (simp add: stA_def segA_def segA2_def reqA_def xhrA_def cfg0_def heap0_def
      abort_def perform_def download_def isDownloading_def Let_def
      cleanTimedOutFailedSegments_def emit_def resolveSegmentUrl_def rangeRequest_def
      setupXhrEvents_def writeSegment_def truthy_def)
  then have "download cfg0 10 (abort stA segA2) segA2 None \<noteq> stA"
    by auto
  then show ?thesis
    by (simp add: updatePriority_def spec_restart_def spec_mandatory_def)
      (simp add: stA_def segA_def segA2_def reqA_def xhrA_def cfg0_def heap0_def)
qed

text \<open>C1, amended: for a segment with an in-flight request, \<^verbatim>\<open>updatePriority\<close>
  aborts the request and starts a new one with the literal URL exactly when the
  request's initial priority was above \<^verbatim>\<open>skipSegmentBuilderPriority\<close>, the segment's
  priority is now at most \<^verbatim>\<open>skipSegmentBuilderPriority\<close>, and the literal URL differs
  from the URL in flight; in every other case it returns the state unchanged.\<close>

theorem updatePriority_restart:
  "map_of (xhrRequests st) (segId (heap st seg)) = Some req \<Longrightarrow>
   (priority (heap st seg) \<le> skipSegmentBuilderPriority cfg \<and>
    skipSegmentBuilderPriority cfg < initialPriority req \<and>
    segmentUrl req \<noteq> url (heap st seg) \<longrightarrow>
      (\<exists>st' req' rest.
         updatePriority cfg now st seg = Inr st' \<and>
         map_of (xhrRequests st') (segId (heap st seg)) = Some req' \<and>
         segment req' = seg \<and>
         segmentUrl req' = url (heap st seg) \<and> openUrl (xhr req') = url (heap st seg) \<and>
         requestUrl (heap st' seg) = Some (url (heap st seg)) \<and>
         initialPriority req' = priority (heap st seg) \<and> listenerPieces (xhr req') = None \<and>
         effects st' =
           effects st @ [XhrAbort (xhr req),
             Emit (SegmentStartLoad seg)
               (map fst (AList.delete (segId (heap st seg)) (xhrRequests st)))] @
           rest @ [XhrSend (xhr req')] \<and>
         set rest \<subseteq> {XhrSetupCall (xhr req') (url (heap st seg))})) \<and>
   (\<not> (priority (heap st seg) \<le> skipSegmentBuilderPriority cfg \<and>
        skipSegmentBuilderPriority cfg < initialPriority req \<and>
        segmentUrl req \<noteq> url (heap st seg)) \<longrightarrow>
      updatePriority cfg now st seg = Inr st)"
proof (intro conjI impI)
  assume req: "map_of (xhrRequests st) (segId (heap st seg)) = Some req"
  assume c: "priority (heap st seg) \<le> skipSegmentBuilderPriority cfg \<and>
    skipSegmentBuilderPriority cfg < initialPriority req \<and> segmentUrl req \<noteq> url (heap st seg)"
  have nd: "\<not> isDownloading (abort st seg) seg"
    by (rule not_downloading_abort)
  have up: "updatePriority cfg now st seg = Inr (download cfg now (abort st seg) seg None)"
    using req c by (simp add: updatePriority_def)
  show "\<exists>st' req' rest.
         updatePriority cfg now st seg = Inr st' \<and>
         map_of (xhrRequests st') (segId (heap st seg)) = Some req' \<and>
         segment req' = seg \<and>
         segmentUrl req' = url (heap st seg) \<and> openUrl (xhr req') = url (heap st seg) \<and>
         requestUrl (heap st' seg) = Some (url (heap st seg)) \<and>
         initialPriority req' = priority (heap st seg) \<and> listenerPieces (xhr req') = None \<and>
         effects st' =
           effects st @ [XhrAbort (xhr req),
             Emit (SegmentStartLoad seg)
               (map fst (AList.delete (segId (heap st seg)) (xhrRequests st)))] @
           rest @ [XhrSend (xhr req')] \<and>
         set rest \<subseteq> {XhrSetupCall (xhr req') (url (heap st seg))}"
    unfolding up download_new [OF nd]
    using c by (simp add: Let_def AList.update_conv' abort_in_flight [OF req])
next
  assume "map_of (xhrRequests st) (segId (heap st seg)) = Some req"
    and "\<not> (priority (heap st seg) \<le> skipSegmentBuilderPriority cfg \<and>
        skipSegmentBuilderPriority cfg < initialPriority req \<and>
        segmentUrl req \<noteq> url (heap st seg))"
  then show "updatePriority cfg now st seg = Inr st"
    by (auto simp: updatePriority_def)
qed

theorem updatePriority_restart_witness:
  "map_of (xhrRequests stA) (segId (heap stA segA2)) = Some reqA \<and>
   priority (heap stA segA2) \<le> skipSegmentBuilderPriority cfg0 \<and>
   skipSegmentBuilderPriority cfg0 < initialPriority reqA \<and>
   segmentUrl reqA \<noteq> url (heap stA segA2) \<and>
   (case updatePriority cfg0 10 stA segA2 of
      Inl e \<Rightarrow> False
    | Inr st' \<Rightarrow> map_option segmentUrl (map_of (xhrRequests st') ''a'') = Some ''o/a'' \<and>
        hd (effects st') = XhrAbort xhrA) \<and>
   updatePriority cfg0 10 stA segA = Inr stA"
  using updatePriority_restart [of stA segA2 reqA cfg0 10]
    updatePriority_restart [of stA segA reqA cfg0 10]
  by (auto simp: stA_def segA_def segA2_def reqA_def xhrA_def cfg0_def heap0_def)

subsection \<open>Failure of a download\<close>

lemma segmentFailure_eq:
  "segmentFailure cfg now st seg c resp =
     st\<lparr>heap := (heap st)(seg := (heap st seg)\<lparr>responseUrl := responseURL resp\<rparr>),
        xhrRequests := AList.delete (segId (heap st seg)) (xhrRequests st),
        failedSegments :=
          AList.update (segId (heap st seg)) (jsAdd (Finite now) (httpFailedSegmentTimeout cfg))
            (failedSegments st),
        effects := effects st @
          [Emit (SegmentError seg c)
             (map fst (AList.delete (segId (heap st seg)) (xhrRequests st)))]\<rparr>"
  by (simp add: segmentFailure_def Let_def emit_def writeSegment_def)

lemma segmentDownloadFinished_end_eq:
  "segmentDownloadFinished_end st seg data =
     st\<lparr>xhrRequests := AList.delete (segId (heap st seg)) (xhrRequests st),
        effects := effects st @
          [Emit (SegmentLoaded seg data)
             (map fst (AList.delete (segId (heap st seg)) (xhrRequests st)))]\<rparr>"
  by (simp add: segmentDownloadFinished_end_def emit_def)


lemma segmentDownloadFinished_no_validator:
  "segmentValidator cfg = None \<Longrightarrow>
   segmentDownloadFinished cfg now st seg data resp =
     Done (segmentDownloadFinished_end
             (writeSegment seg (\<lambda>s. s\<lparr>responseUrl := responseURL resp\<rparr>) st) seg data)"
  by (simp add: segmentDownloadFinished_def)

lemma segmentDownloadFinished_validator:
  "segmentValidator cfg = Some validator \<Longrightarrow>
   segmentDownloadFinished cfg now st seg data resp =
     (case validator ((heap st seg)\<lparr>responseUrl := responseURL resp\<rparr>) data of
        Throws e \<Rightarrow>
          Done (segmentFailure cfg now
                 (perform (ValidatorCall ((heap st seg)\<lparr>responseUrl := responseURL resp\<rparr>) data)
                    (writeSegment seg (\<lambda>s. s\<lparr>responseUrl := responseURL resp\<rparr>) st))
                 seg (ValidatorRejected e) resp)
      | Promise p \<Rightarrow>
          Awaiting
            (perform (ValidatorCall ((heap st seg)\<lparr>responseUrl := responseURL resp\<rparr>) data)
               (writeSegment seg (\<lambda>s. s\<lparr>responseUrl := responseURL resp\<rparr>) st))
            \<lparr>awaitSegment = seg, awaitData = data, awaitPromise = p\<rparr>)"
  by (simp add: segmentDownloadFinished_def Let_def writeSegment_def
      cong del: validation.case_cong_weak)

subsection \<open>Resuming a download: the payload\<close>

lemma fold_byteLength:
  "fold (\<lambda>piece n. n + length piece) pieces a = a + length (concat pieces)"
  by (induction pieces arbitrary: a) simp_all

lemma bytesDownloaded_concat: "bytesDownloaded pieces = length (concat pieces)"
  by (simp add: bytesDownloaded_def fold_byteLength)

lemma bytesDownloaded_sum: "bytesDownloaded pieces = sum_list (map length pieces)"
  by (simp add: bytesDownloaded_concat length_concat)

lemma fold_copyPiece:
  "offset + length (concat pieces) \<le> length buf \<Longrightarrow>
   fold copyPiece pieces (Some (buf, offset)) =
     Some (take offset buf @ concat pieces @ drop (offset + length (concat pieces)) buf,
           offset + length (concat pieces))"
proof (induction pieces arbitrary: buf offset)
  case Nil
  then show ?case by simp
next
  case (Cons piece pieces)
  let ?buf = "take offset buf @ piece @ drop (offset + length piece) buf"
  from Cons.prems have fit: "offset + length piece \<le> length buf" by simp
  then have step: "copyPiece piece (Some (buf, offset)) = Some (?buf, offset + length piece)"
    by (simp add: copyPiece_def typedArraySet_def)
  from Cons.prems have len: "length ?buf = length buf" by simp
  from Cons.prems have "offset + length piece + length (concat pieces) \<le> length ?buf"
    by simp
  from Cons.IH [OF this] fit show ?case
    by (simp add: step min_absorb2 ac_simps)
qed

lemma reassemble_concat: "reassemble pieces data = Some (concat pieces @ data)"
  using fold_copyPiece [of 0 pieces "replicate (bytesDownloaded pieces + length data) 0"]
  by (simp add: reassemble_def bytesDownloaded_concat typedArraySet_def)

text \<open>What the load listener hands to \<^verbatim>\<open>segmentDownloadFinished\<close> on a 2xx status.\<close>

lemma onLoad_ok:
  "200 \<le> status resp \<Longrightarrow> status resp < 300 \<Longrightarrow>
   onLoad cfg now st x resp =
     segmentDownloadFinished cfg now st (listenerSegment x)
       (case listenerPieces x of
          Some pieces \<Rightarrow>
            if status resp = 206 then concat pieces @ responseBody resp else responseBody resp
        | None \<Rightarrow> responseBody resp)
       resp"
  by (simp add: onLoad_def reassemble_concat split: option.splits)

lemma onLoad_never_throws: "onLoad cfg now st x resp \<noteq> Uncaught st' e"
  by (auto simp: onLoad_def reassemble_concat segmentDownloadFinished_def Let_def
      split: option.splits validation.splits)



subsection \<open>Progress\<close>

lemma onProgress_eq:
  "onProgress x ev (st, prev) =
     (st\<lparr>effects := effects st @
          Emit (BytesDownloaded (listenerSegment x) (loaded ev - prev)) (map fst (xhrRequests st)) #
          (if lengthComputable ev
           then [Emit (SegmentSize (listenerSegment x) (total ev)) (map fst (xhrRequests st))]
           else [])\<rparr>, loaded ev)"
  by (simp add: onProgress_def Let_def emit_def)

lemma fold_onProgress:
  "ids = map fst (xhrRequests st) \<Longrightarrow>
   fold (onProgress x) evs (st, prev) =
     (st\<lparr>effects := effects st @
        concat (map (\<lambda>(p, ev).
           Emit (BytesDownloaded (listenerSegment x) (loaded ev - p)) ids #
           (if lengthComputable ev
            then [Emit (SegmentSize (listenerSegment x) (total ev)) ids]
            else [])) (zip (prev # map loaded evs) evs))\<rparr>,
      last (prev # map loaded evs))"
proof (induction evs arbitrary: st prev)
  case Nil
  then show ?case by simp
next
  case (Cons ev evs)
  from Cons.prems show ?case
    by (simp add: onProgress_eq Cons.IH [of _ "loaded ev"])
qed

text \<open>C8, as stated, fails: a request whose transport reports the content length in
  two progress notifications emits segment-size twice, not once.\<close>

theorem progress_size_counterexample:
  "effects (progressAll xhrA
     [\<lparr>loaded = 100, total = 300, lengthComputable = True\<rparr>,
      \<lparr>loaded = 300, total = 300, lengthComputable = True\<rparr>] stA) =
   [Emit (BytesDownloaded (listenerSegment xhrA) 100) [''a''],
    Emit (SegmentSize (listenerSegment xhrA) 300) [''a''],
    Emit (BytesDownloaded (listenerSegment xhrA) 200) [''a''],
    Emit (SegmentSize (listenerSegment xhrA) 300) [''a'']]"
  by (simp add: progressAll_def onProgress_def Let_def emit_def stA_def)

text \<open>C8, amended: the notifications of a request emit, in order, one bytes-downloaded
  event each, carrying the bytes loaded since the previous notification (since the start
  for the first), and each notification with a computable length also emits one
  segment-size event carrying the total; nothing else changes.\<close>

theorem progress_events:
  "effects (progressAll x evs st) =
     effects st @
     concat (map (\<lambda>(prev, ev).
        Emit (BytesDownloaded (listenerSegment x) (loaded ev - prev)) (map fst (xhrRequests st)) #
        (if lengthComputable ev
         then [Emit (SegmentSize (listenerSegment x) (total ev)) (map fst (xhrRequests st))]
         else [])) (zip (0 # map loaded evs) evs)) \<and>
   xhrRequests (progressAll x evs st) = xhrRequests st \<and>
   failedSegments (progressAll x evs st) = failedSegments st \<and>
   heap (progressAll x evs st) = heap st"
  by (simp add: progressAll_def fold_onProgress [OF refl])

theorem progress_events_witness:
  "effects (progressAll xhrA
     [\<lparr>loaded = 100, total = 300, lengthComputable = True\<rparr>,
      \<lparr>loaded = 250, total = 0, lengthComputable = False\<rparr>] stA) =
   [Emit (BytesDownloaded (listenerSegment xhrA) 100) [''a''],
    Emit (SegmentSize (listenerSegment xhrA) 300) [''a''],
    Emit (BytesDownloaded (listenerSegment xhrA) 150) [''a'']]"
  using progress_events [of xhrA "[\<lparr>loaded = 100, total = 300, lengthComputable = True\<rparr>,
      \<lparr>loaded = 250, total = 0, lengthComputable = False\<rparr>]" stA]
  by (simp add: stA_def)

subsection \<open>Resuming a download: the request\<close>

lemma decimal_3: "decimal 3 = ''3''"
  by (simp add: decimal.simps digit_def)

lemma decimal_1234: "decimal 1234 = ''1234''"
  by (simp add: decimal.simps digit_def)

lemma segmentDownloadFinished_responseURL:
  "responseURL r1 = responseURL r2 \<Longrightarrow>
   segmentDownloadFinished cfg now st seg data r1 =
     segmentDownloadFinished cfg now st seg data r2"
  by (simp add: segmentDownloadFinished_def Let_def segmentFailure_eq
      split: option.splits validation.splits)

lemma segmentDownloadFinished_delivers:
  "(segmentValidator cfg = None \<longrightarrow>
      effects (stateOf (segmentDownloadFinished cfg now st seg data resp)) =
        effects st @
        [Emit (SegmentLoaded seg data)
           (map fst (AList.delete (segId (heap st seg)) (xhrRequests st)))]) \<and>
   (\<forall>validator p.
      segmentValidator cfg = Some validator \<and>
      validator ((heap st seg)\<lparr>responseUrl := responseURL resp\<rparr>) data = Promise p \<longrightarrow>
      (\<exists>st1 w.
         segmentDownloadFinished cfg now st seg data resp = Awaiting st1 w \<and>
         effects st1 =
           effects st @ [ValidatorCall ((heap st seg)\<lparr>responseUrl := responseURL resp\<rparr>) data] \<and>
         (p = Resolves \<longrightarrow>
            (\<forall>st2 now2 resp2.
               effects (segmentDownloadFinished_resume cfg now2 st2 w resp2) =
                 effects st2 @
                 [Emit (SegmentLoaded seg data)
                    (map fst (AList.delete (segId (heap st2 seg)) (xhrRequests st2)))]))))"
proof (intro conjI impI allI)
  assume "segmentValidator cfg = None"
  then show "effects (stateOf (segmentDownloadFinished cfg now st seg data resp)) =
        effects st @
        [Emit (SegmentLoaded seg data)
           (map fst (AList.delete (segId (heap st seg)) (xhrRequests st)))]"
    by (simp add: segmentDownloadFinished_no_validator segmentDownloadFinished_end_eq
        writeSegment_def)
next
  fix validator p
  assume a: "segmentValidator cfg = Some validator \<and>
      validator ((heap st seg)\<lparr>responseUrl := responseURL resp\<rparr>) data = Promise p"
  then have v: "segmentValidator cfg = Some validator" by blast
  from a show "\<exists>st1 w.
         segmentDownloadFinished cfg now st seg data resp = Awaiting st1 w \<and>
         effects st1 =
           effects st @ [ValidatorCall ((heap st seg)\<lparr>responseUrl := responseURL resp\<rparr>) data] \<and>
         (p = Resolves \<longrightarrow>
            (\<forall>st2 now2 resp2.
               effects (segmentDownloadFinished_resume cfg now2 st2 w resp2) =
                 effects st2 @
                 [Emit (SegmentLoaded seg data)
                    (map fst (AList.delete (segId (heap st2 seg)) (xhrRequests st2)))]))"
    by (simp add: segmentDownloadFinished_validator [OF v] perform_def writeSegment_def
        segmentDownloadFinished_resume_def segmentDownloadFinished_end_eq)
qed

lemma download_new_request:
  "\<not> isDownloading st seg \<Longrightarrow>
   \<exists>req.
     map_of (xhrRequests (download cfg now st seg pieces)) (segId (heap st seg)) = Some req \<and>
     last (effects (download cfg now st seg pieces)) = XhrSend (xhr req) \<and>
     segment req = seg \<and>
     xhr req =
       \<lparr>openMethod = ''GET'',
        openUrl =
          (if priority (heap st seg) \<le> skipSegmentBuilderPriority cfg then url (heap st seg)
           else case segmentUrlBuilder cfg of
                  Some builder \<Rightarrow> builder (heap st seg)
                | None \<Rightarrow> url (heap st seg)),
        responseType = ''arraybuffer'',
        requestHeaders =
          (if truthy (segRange (heap st seg)) then [(''Range'', the (segRange (heap st seg)))]
           else if pieces \<noteq> None \<and> httpUseRanges cfg
           then [(''Range'', ''bytes='' @ decimal (bytesDownloaded (the pieces)) @ ''-'')]
           else []),
        listenerSegment = seg,
        listenerPieces =
          (if \<not> truthy (segRange (heap st seg)) \<and> httpUseRanges cfg then pieces else None)\<rparr>"
  by (simp add: download_new Let_def AList.update_conv' split del: if_split
      cong del: if_weak_cong option.case_cong_weak)

text \<open>C3: a download, with ranges enabled, of a segment not yet in flight, called with
  previously received pieces. Without an explicit range the request carries the header
  \<^verbatim>\<open>Range: bytes=N-\<close>, \<open>N\<close> the sum of the lengths of the pieces; on a 206 the
  load listener hands to \<^verbatim>\<open>segmentDownloadFinished\<close> the pieces in their order followed
  by the bytes received. That payload is what segment-loaded carries when no validator is
  configured; with a validator it is what the validator is called on, and what
  segment-loaded carries once the promise the validator returned has resolved, whatever
  the state and the response read then. The same download without pieces sends no Range
  header and hands on the body it receives, so when that body is the pieces followed by
  the bytes of the 206 (and the response URL is the same), the two load events have the
  same outcome. With an explicit range the header is that range, the pieces are dropped
  (the request is the one a download without pieces makes) and the body received is
  handed on as it is.\<close>

theorem resumption:
  "\<not> isDownloading st seg \<Longrightarrow> httpUseRanges cfg \<Longrightarrow>
   (\<exists>req req0.
      map_of (xhrRequests (download cfg now st seg (Some pieces))) (segId (heap st seg)) =
        Some req \<and>
      last (effects (download cfg now st seg (Some pieces))) = XhrSend (xhr req) \<and>
      map_of (xhrRequests (download cfg now st seg None)) (segId (heap st seg)) = Some req0 \<and>
      segment req = seg \<and> segment req0 = seg \<and>
      listenerSegment (xhr req) = seg \<and> listenerSegment (xhr req0) = seg \<and>
      (\<not> truthy (segRange (heap st seg)) \<longrightarrow>
         requestHeaders (xhr req) =
           [(''Range'', ''bytes='' @ decimal (sum_list (map length pieces)) @ ''-'')] \<and>
         requestHeaders (xhr req0) = [] \<and>
         (status resp = 206 \<longrightarrow>
            onLoad cfg now' st' (xhr req) resp =
              segmentDownloadFinished cfg now' st' seg (concat pieces @ responseBody resp) resp \<and>
            (segmentValidator cfg = None \<longrightarrow>
               effects (stateOf (onLoad cfg now' st' (xhr req) resp)) =
                 effects st' @
                 [Emit (SegmentLoaded seg (concat pieces @ responseBody resp))
                    (map fst (AList.delete (segId (heap st' seg)) (xhrRequests st')))]) \<and>
            (\<forall>validator p.
               segmentValidator cfg = Some validator \<and>
               validator ((heap st' seg)\<lparr>responseUrl := responseURL resp\<rparr>)
                 (concat pieces @ responseBody resp) = Promise p \<longrightarrow>
               (\<exists>st1 w.
                  onLoad cfg now' st' (xhr req) resp = Awaiting st1 w \<and>
                  effects st1 =
                    effects st' @
                    [ValidatorCall ((heap st' seg)\<lparr>responseUrl := responseURL resp\<rparr>)
                       (concat pieces @ responseBody resp)] \<and>
                  (p = Resolves \<longrightarrow>
                     (\<forall>st2 now2 resp2.
                        effects (segmentDownloadFinished_resume cfg now2 st2 w resp2) =
                          effects st2 @
                          [Emit (SegmentLoaded seg (concat pieces @ responseBody resp))
                             (map fst (AList.delete (segId (heap st2 seg))
                                         (xhrRequests st2)))]))))) \<and>
         (200 \<le> status whole \<and> status whole < 300 \<longrightarrow>
            onLoad cfg now' st' (xhr req0) whole =
              segmentDownloadFinished cfg now' st' seg (responseBody whole) whole) \<and>
         (status resp = 206 \<and> 200 \<le> status whole \<and> status whole < 300 \<and>
          responseBody whole = concat pieces @ responseBody resp \<and>
          responseURL whole = responseURL resp \<longrightarrow>
            onLoad cfg now' st' (xhr req) resp = onLoad cfg now' st' (xhr req0) whole)) \<and>
      (truthy (segRange (heap st seg)) \<longrightarrow>
         requestHeaders (xhr req) = [(''Range'', the (segRange (heap st seg)))] \<and>
         xhr req = xhr req0 \<and>
         (200 \<le> status resp \<and> status resp < 300 \<longrightarrow>
            onLoad cfg now' st' (xhr req) resp =
              segmentDownloadFinished cfg now' st' seg (responseBody resp) resp)))"
proof -
  assume nd: "\<not> isDownloading st seg" and ranges: "httpUseRanges cfg"
  from download_new_request [OF nd, of cfg now "Some pieces"] obtain req where
    req: "map_of (xhrRequests (download cfg now st seg (Some pieces))) (segId (heap st seg)) =
        Some req"
      "last (effects (download cfg now st seg (Some pieces))) = XhrSend (xhr req)"
      "segment req = seg"
    and x: "xhr req =
       \<lparr>openMethod = ''GET'',
        openUrl =
          (if priority (heap st seg) \<le> skipSegmentBuilderPriority cfg then url (heap st seg)
           else case segmentUrlBuilder cfg of
                  Some builder \<Rightarrow> builder (heap st seg)
                | None \<Rightarrow> url (heap st seg)),
        responseType = ''arraybuffer'',
        requestHeaders =
          (if truthy (segRange (heap st seg)) then [(''Range'', the (segRange (heap st seg)))]
           else if Some pieces \<noteq> None \<and> httpUseRanges cfg
           then [(''Range'', ''bytes='' @ decimal (bytesDownloaded (the (Some pieces))) @ ''-'')]
           else []),
        listenerSegment = seg,
        listenerPieces =
          (if \<not> truthy (segRange (heap st seg)) \<and> httpUseRanges cfg then Some pieces
           else None)\<rparr>"
    by blast
  from download_new_request [OF nd, of cfg now None] obtain req0 where
    req0: "map_of (xhrRequests (download cfg now st seg None)) (segId (heap st seg)) = Some req0"
      "segment req0 = seg"
    and x0: "xhr req0 =
       \<lparr>openMethod = ''GET'',
        openUrl =
          (if priority (heap st seg) \<le> skipSegmentBuilderPriority cfg then url (heap st seg)
           else case segmentUrlBuilder cfg of
                  Some builder \<Rightarrow> builder (heap st seg)
                | None \<Rightarrow> url (heap st seg)),
        responseType = ''arraybuffer'',
        requestHeaders =
          (if truthy (segRange (heap st seg)) then [(''Range'', the (segRange (heap st seg)))]
           else if (None :: bytes list option) \<noteq> None \<and> httpUseRanges cfg
           then [(''Range'', ''bytes='' @ decimal (bytesDownloaded (the None)) @ ''-'')]
           else []),
        listenerSegment = seg,
        listenerPieces =
          (if \<not> truthy (segRange (heap st seg)) \<and> httpUseRanges cfg then None else None)\<rparr>"
    by blast
  have ls: "listenerSegment (xhr req) = seg" "listenerSegment (xhr req0) = seg"
    by (simp_all add: x x0)
  have lp: "listenerPieces (xhr req0) = None"
    "listenerPieces (xhr req) = (if truthy (segRange (heap st seg)) then None else Some pieces)"
    using ranges by (simp_all add: x x0)
  have hd: "requestHeaders (xhr req) =
      (if truthy (segRange (heap st seg)) then [(''Range'', the (segRange (heap st seg)))]
       else [(''Range'', ''bytes='' @ decimal (sum_list (map length pieces)) @ ''-'')])"
    "requestHeaders (xhr req0) =
      (if truthy (segRange (heap st seg)) then [(''Range'', the (segRange (heap st seg)))]
       else [])"
    using ranges by (simp_all add: x x0 bytesDownloaded_sum)
  have eq: "truthy (segRange (heap st seg)) \<Longrightarrow> xhr req = xhr req0"
    by (simp add: x x0)
  have partial: "onLoad cfg now' st' (xhr req) resp =
      segmentDownloadFinished cfg now' st' seg (concat pieces @ responseBody resp) resp"
    if "\<not> truthy (segRange (heap st seg))" "status resp = 206"
    using that by (simp add: onLoad_ok ls lp)
  have plain: "onLoad cfg now' st' (xhr req) r =
      segmentDownloadFinished cfg now' st' seg (responseBody r) r"
    if "truthy (segRange (heap st seg))" "200 \<le> status r" "status r < 300" for r
    using that by (simp add: onLoad_ok ls lp)
  have whole: "onLoad cfg now' st' (xhr req0) r =
      segmentDownloadFinished cfg now' st' seg (responseBody r) r"
    if "200 \<le> status r" "status r < 300" for r
    using that by (simp add: onLoad_ok ls lp)
  note deliver = segmentDownloadFinished_delivers
    [of cfg now' st' seg "concat pieces @ responseBody resp" resp]
  have same: "onLoad cfg now' st' (xhr req) resp = onLoad cfg now' st' (xhr req0) whole"
    if "\<not> truthy (segRange (heap st seg))"
      "status resp = 206 \<and> 200 \<le> status whole \<and> status whole < 300 \<and>
       responseBody whole = concat pieces @ responseBody resp \<and>
       responseURL whole = responseURL resp"
  proof -
    from that(2) have w: "200 \<le> status whole" "status whole < 300"
      and b: "responseBody whole = concat pieces @ responseBody resp"
      and u: "responseURL resp = responseURL whole" and p: "status resp = 206"
      by simp_all
    show ?thesis
      unfolding partial [OF that(1) p] whole [OF w] b
      by (rule segmentDownloadFinished_responseURL [OF u])
  qed
  show ?thesis
  proof (rule exI [of _ req], rule exI [of _ req0], intro conjI impI)
    show "onLoad cfg now' st' (xhr req) resp =
        segmentDownloadFinished cfg now' st' seg (concat pieces @ responseBody resp) resp"
      if "\<not> truthy (segRange (heap st seg))" "status resp = 206"
      using that by (rule partial)
    show "effects (stateOf (onLoad cfg now' st' (xhr req) resp)) =
        effects st' @
        [Emit (SegmentLoaded seg (concat pieces @ responseBody resp))
           (map fst (AList.delete (segId (heap st' seg)) (xhrRequests st')))]"
      if "\<not> truthy (segRange (heap st seg))" "status resp = 206" "segmentValidator cfg = None"
      using that deliver by (simp add: partial)
    show "\<forall>validator p.
         segmentValidator cfg = Some validator \<and>
         validator ((heap st' seg)\<lparr>responseUrl := responseURL resp\<rparr>)
           (concat pieces @ responseBody resp) = Promise p \<longrightarrow>
         (\<exists>st1 w.
            onLoad cfg now' st' (xhr req) resp = Awaiting st1 w \<and>
            effects st1 =
              effects st' @
              [ValidatorCall ((heap st' seg)\<lparr>responseUrl := responseURL resp\<rparr>)
                 (concat pieces @ responseBody resp)] \<and>
            (p = Resolves \<longrightarrow>
               (\<forall>st2 now2 resp2.
                  effects (segmentDownloadFinished_resume cfg now2 st2 w resp2) =
                    effects st2 @
                    [Emit (SegmentLoaded seg (concat pieces @ responseBody resp))
                       (map fst (AList.delete (segId (heap st2 seg)) (xhrRequests st2)))])))"
      if "\<not> truthy (segRange (heap st seg))" "status resp = 206"
      unfolding partial [OF that] using deliver by blast
    show "onLoad cfg now' st' (xhr req) resp = onLoad cfg now' st' (xhr req0) whole"
      if "\<not> truthy (segRange (heap st seg))"
        "status resp = 206 \<and> 200 \<le> status whole \<and> status whole < 300 \<and>
         responseBody whole = concat pieces @ responseBody resp \<and>
         responseURL whole = responseURL resp"
      using that by (rule same)
    show "onLoad cfg now' st' (xhr req0) whole =
        segmentDownloadFinished cfg now' st' seg (responseBody whole) whole"
      if "200 \<le> status whole \<and> status whole < 300"
      using that by (simp add: whole)
    show "onLoad cfg now' st' (xhr req) resp =
        segmentDownloadFinished cfg now' st' seg (responseBody resp) resp"
      if "truthy (segRange (heap st seg))" "200 \<le> status resp \<and> status resp < 300"
      using that by (simp add: plain)
  qed (simp_all add: req req0 ls hd eq)
qed

theorem resumption_witness:
  "\<not> isDownloading (initial heap0) segA \<and> httpUseRanges cfg0 \<and>
   \<not> truthy (segRange (heap0 segA)) \<and>
   map_option xhr
     (map_of (xhrRequests (download cfg0 0 (initial heap0) segA (Some [[1, 2], [3]]))) ''a'') =
     Some (xhrA\<lparr>requestHeaders := [(''Range'', ''bytes=3-'')],
                listenerPieces := Some [[1, 2], [3]]\<rparr>) \<and>
   effects (stateOf (onLoad cfg0 7 stA
      (xhrA\<lparr>requestHeaders := [(''Range'', ''bytes=3-'')],
             listenerPieces := Some [[1, 2], [3]]\<rparr>)
      \<lparr>status = 206, responseBody = [4, 5], responseURL = None\<rparr>)) =
     [Emit (SegmentLoaded segA [1, 2, 3, 4, 5]) []] \<and>
   effects (stateOf (onLoad cfg0 7 stA xhrA
      \<lparr>status = 200, responseBody = [1, 2, 3, 4, 5], responseURL = None\<rparr>)) =
     [Emit (SegmentLoaded segA [1, 2, 3, 4, 5]) []] \<and>
   segmentValidator cfgB = Some validatorB \<and>
   validatorB ((heap stA segA)\<lparr>responseUrl := None\<rparr>) [1, 2, 3, 4, 5] = Promise Resolves \<and>
   (case onLoad cfgB 7 stA
           (xhrA\<lparr>requestHeaders := [(''Range'', ''bytes=3-'')],
                  listenerPieces := Some [[1, 2], [3]]\<rparr>)
           \<lparr>status = 206, responseBody = [4, 5], responseURL = None\<rparr> of
      Awaiting st1 w \<Rightarrow>
        effects (segmentDownloadFinished_resume cfgB 8 st1 w
                   \<lparr>status = 206, responseBody = [4, 5], responseURL = None\<rparr>) =
          [ValidatorCall ((heap stA segA)\<lparr>responseUrl := None\<rparr>) [1, 2, 3, 4, 5],
           Emit (SegmentLoaded segA [1, 2, 3, 4, 5]) []]
    | Done st1 \<Rightarrow> False
    | Uncaught st1 e \<Rightarrow> False) \<and>
   \<not> isDownloading (initial heap0) segB \<and> truthy (segRange (heap0 segB)) \<and>
   map_option (\<lambda>req. (requestHeaders (xhr req), listenerPieces (xhr req)))
     (map_of (xhrRequests (download cfg0 0 (initial heap0) segB (Some [[1, 2], [3]]))) ''b'') =
     Some ([(''Range'', ''bytes=0-99'')], None)"
  using resumption [where st = "initial heap0" and seg = segA and cfg = cfg0 and now = 0
      and pieces = "[[1, 2], [3]]" and now' = 7 and st' = stA
      and resp = "\<lparr>status = 206, responseBody = [4, 5], responseURL = None\<rparr>"
      and whole = "\<lparr>status = 200, responseBody = [1, 2, 3, 4, 5], responseURL = None\<rparr>"]
    resumption [where st = "initial heap0" and seg = segA and cfg = cfgB and now = 0
      and pieces = "[[1, 2], [3]]" and now' = 7 and st' = stA
      and resp = "\<lparr>status = 206, responseBody = [4, 5], responseURL = None\<rparr>"
      and whole = "\<lparr>status = 200, responseBody = [1, 2, 3, 4, 5], responseURL = None\<rparr>"]
    resumption [where st = "initial heap0" and seg = segB and cfg = cfg0 and now = 0
      and pieces = "[[1, 2], [3]]" and now' = 7 and st' = stA
      and resp = "\<lparr>status = 206, responseBody = [4, 5], responseURL = None\<rparr>"
      and whole = "\<lparr>status = 200, responseBody = [1, 2, 3, 4, 5], responseURL = None\<rparr>"]
  by (simp add: isDownloading_def initial_def segA_def segB_def heap0_def cfg0_def cfgB_def
      validatorB_def truthy_def download_def
      Let_def cleanTimedOutFailedSegments_def emit_def perform_def resolveSegmentUrl_def
      buildSegmentUrl_def rangeRequest_def setRequestHeader_def setupXhrEvents_def
      writeSegment_def
      bytesDownloaded_def decimal.simps digit_def onLoad_def reassemble_def copyPiece_def
      typedArraySet_def segmentDownloadFinished_def segmentDownloadFinished_end_def
      segmentDownloadFinished_resume_def stA_def xhrA_def reqA_def)

subsection \<open>What the operations change\<close>

lemma download_requests:
  "xhrRequests (download cfg now st seg pieces) = xhrRequests st \<or>
   (\<exists>req. xhrRequests (download cfg now st seg pieces) =
            AList.update (segId (heap st seg)) req (xhrRequests st))"
proof (cases "isDownloading st seg")
  case True
  then show ?thesis by (simp add: download_def)
next
  case False
  show ?thesis
    unfolding download_new [OF False] Let_def
    by (rule disjI2, rule exI, simp split del: if_split)
qed

lemma download_failed:
  "failedSegments (download cfg now st seg pieces) =
     (if isDownloading st seg then failedSegments st
      else failedSegments (cleanTimedOutFailedSegments now st))"
proof (cases "isDownloading st seg")
  case True
  then show ?thesis by (simp add: download_def)
next
  case False
  show ?thesis
    unfolding download_new [OF False] Let_def
    using False by (simp split del: if_split)
qed

lemma download_effects:
  "\<exists>new. effects (download cfg now st seg pieces) = effects st @ new \<and>
     (\<forall>s c ids. Emit (SegmentError s c) ids \<notin> set new)"
proof (cases "isDownloading st seg")
  case True
  then show ?thesis by (simp add: download_def)
next
  case False
  show ?thesis
    unfolding download_new [OF False] Let_def
    by simp
qed

lemma download_segId: "segId (heap (download cfg now st seg pieces) r) = segId (heap st r)"
proof (cases "isDownloading st seg")
  case True
  then show ?thesis by (simp add: download_def)
next
  case False
  show ?thesis
    unfolding download_new [OF False] Let_def
    by (cases "r = seg") (simp_all split del: if_split)
qed

lemma abort_heap: "heap (abort st seg) = heap st"
  by (simp add: abort_def perform_def split: option.splits)

lemma onLoad_cases:
  "(\<exists>c. onLoad cfg now st x resp =
          Done (segmentFailure cfg now st (listenerSegment x) c resp)) \<or>
   (\<exists>data. onLoad cfg now st x resp =
          Done (segmentDownloadFinished_end
                 (writeSegment (listenerSegment x)
                    (\<lambda>s. s\<lparr>responseUrl := responseURL resp\<rparr>) st)
                 (listenerSegment x) data)) \<or>
   (\<exists>v c. onLoad cfg now st x resp =
          Done (segmentFailure cfg now
                 (perform v (writeSegment (listenerSegment x)
                    (\<lambda>s. s\<lparr>responseUrl := responseURL resp\<rparr>) st))
                 (listenerSegment x) c resp)) \<or>
   (\<exists>v w. onLoad cfg now st x resp =
          Awaiting (perform v (writeSegment (listenerSegment x)
                    (\<lambda>s. s\<lparr>responseUrl := responseURL resp\<rparr>) st)) w)"
  by (auto simp: onLoad_def reassemble_concat segmentDownloadFinished_def Let_def
      split: option.splits validation.splits)

lemma step_segId: "segId (heap (step cfg now operation st) r) = segId (heap st r)"
proof (cases operation)
  case (Download seg pieces)
  then show ?thesis by (simp add: download_segId)
next
  case (UpdatePriority seg)
  then show ?thesis
    by (simp add: updatePriority_def download_segId abort_heap split: option.splits)
next
  case (Load x resp)
  with onLoad_cases [of cfg now st x resp] show ?thesis
    by (auto simp: segmentFailure_eq segmentDownloadFinished_end_eq perform_def writeSegment_def)
next
  case (Settled w resp)
  then show ?thesis
    by (simp add: segmentDownloadFinished_resume_def segmentFailure_eq
        segmentDownloadFinished_end_eq split: settlement.splits)
qed (simp_all add: abort_heap destroy_def onProgress_def Let_def emit_def onError_def
    onTimeout_def segmentFailure_eq writeSegment_def)



lemma run_Cons:
  "run cfg ((now, operation) # trace) st = run cfg trace (step cfg now operation st)"
  by (simp add: run_def)

lemma run_segId: "segId (heap (run cfg trace st) r) = segId (heap st r)"
proof (induction trace arbitrary: st)
  case Nil
  then show ?case by (simp add: run_def)
next
  case (Cons a trace)
  then show ?case by (cases a) (simp add: run_Cons step_segId)
qed


subsection \<open>The validation window\<close>



subsection \<open>Reachable states keep the keys of both maps distinct\<close>

lemma clean_filter:
  assumes "distinct (map fst (failedSegments st))"
  shows "failedSegments (cleanTimedOutFailedSegments now st) =
           filter (\<lambda>(k, time). \<not> jsLess time (Finite now)) (failedSegments st)"
proof -
  let ?old = "filter (\<lambda>(k, time). jsLess time (Finite now)) (failedSegments st)"
  have "(fst p \<notin> set (map fst ?old)) = (\<not> jsLess (snd p) (Finite now))"
    if "p \<in> set (failedSegments st)" for p
  proof
    assume "fst p \<notin> set (map fst ?old)"
    with that show "\<not> jsLess (snd p) (Finite now)" by (force simp: case_prod_beta)
  next
    assume e: "\<not> jsLess (snd p) (Finite now)"
    show "fst p \<notin> set (map fst ?old)"
    proof
      assume "fst p \<in> set (map fst ?old)"
      then obtain q where q: "q \<in> set (failedSegments st)" "jsLess (snd q) (Finite now)"
          "fst q = fst p"
        by (auto simp: case_prod_beta)
      with distinct_fst_eq [OF assms that, of q] e show False by simp
    qed
  qed
  then show ?thesis
    by (simp add: cleanTimedOutFailedSegments_def Let_def fold_delete_filter case_prod_beta
        cong: filter_cong)
qed

lemma wellFormed_initial: "wellFormed (initial h)"
  by (simp add: wellFormed_def initial_def)

lemma wellFormed_abort: "wellFormed st \<Longrightarrow> wellFormed (abort st seg)"
  by (simp add: wellFormed_def abort_def perform_def AList.distinct_delete split: option.splits)

lemma wellFormed_download: "wellFormed st \<Longrightarrow> wellFormed (download cfg u st seg pieces)"
  using download_requests [of cfg u st seg pieces]
  by (auto simp: wellFormed_def download_failed clean_filter AList.distinct_update
      distinct_map_filter)

lemma wellFormed_segmentFailure:
  "wellFormed st \<Longrightarrow> wellFormed (segmentFailure cfg u st seg c resp)"
  by (simp add: wellFormed_def segmentFailure_eq AList.distinct_delete AList.distinct_update)

lemma wellFormed_end: "wellFormed st \<Longrightarrow> wellFormed (segmentDownloadFinished_end st seg data)"
  by (simp add: wellFormed_def segmentDownloadFinished_end_eq AList.distinct_delete)

lemma wellFormed_perform: "wellFormed (perform e st) = wellFormed st"
  by (simp add: wellFormed_def perform_def)

lemma wellFormed_writeSegment: "wellFormed (writeSegment seg f st) = wellFormed st"
  by (simp add: wellFormed_def writeSegment_def)

lemma wellFormed_step: "wellFormed st \<Longrightarrow> wellFormed (step cfg u operation st)"
proof (cases operation)
  case (UpdatePriority seg)
  assume "wellFormed st"
  with UpdatePriority show ?thesis
    by (auto simp: updatePriority_def wellFormed_download wellFormed_abort split: option.splits)
next
  case (Load x resp)
  assume "wellFormed st"
  with Load onLoad_cases [of cfg u st x resp] show ?thesis
    by (auto simp: wellFormed_segmentFailure wellFormed_end wellFormed_perform
        wellFormed_writeSegment)
next
  case (Settled w resp)
  assume "wellFormed st"
  with Settled show ?thesis
    by (simp add: segmentDownloadFinished_resume_def wellFormed_segmentFailure wellFormed_end
        split: settlement.splits)
qed (simp_all add: wellFormed_download wellFormed_abort wellFormed_segmentFailure
    onError_def onTimeout_def onProgress_eq wellFormed_writeSegment,
    simp_all add: wellFormed_def destroy_def)

lemma wellFormed_run: "wellFormed st \<Longrightarrow> wellFormed (run cfg trace st)"
proof (induction trace arbitrary: st)
  case Nil
  then show ?case by (simp add: run_def)
next
  case (Cons a trace)
  then show ?case by (cases a) (simp add: run_Cons wellFormed_step)
qed

subsection \<open>The blacklist\<close>

lemma clean_map_of:
  "distinct (map fst (failedSegments st)) \<Longrightarrow>
   map_of (failedSegments (cleanTimedOutFailedSegments u st)) k =
     (case map_of (failedSegments st) k of
        None \<Rightarrow> None
      | Some e \<Rightarrow> if jsLess e (Finite u) then None else Some e)"
  by (simp add: clean_filter map_of_filter_distinct split: option.splits)

lemma abort_failed: "failedSegments (abort st seg) = failedSegments st"
  by (simp add: abort_def perform_def split: option.splits)

lemma abort_effects: "\<exists>new. effects (abort st seg) = effects st @ new \<and>
     (\<forall>s c ids. Emit (SegmentError s c) ids \<notin> set new)"
  by (simp add: abort_def perform_def split: option.splits)

lemma download_blacklist:
  assumes "distinct (map fst (failedSegments st))"
  shows "\<exists>new. effects (download cfg u st seg pieces) = effects st @ new \<and>
     (map_of (failedSegments (download cfg u st seg pieces)) k = map_of (failedSegments st) k \<or>
      (\<exists>e. map_of (failedSegments st) k = Some e \<and> jsLess e (Finite u) \<and>
           map_of (failedSegments (download cfg u st seg pieces)) k = None))"
proof -
  from download_effects [of cfg u st seg pieces] obtain new
    where "effects (download cfg u st seg pieces) = effects st @ new" by blast
  moreover have "map_of (failedSegments (download cfg u st seg pieces)) k = map_of (failedSegments st) k \<or>
      (\<exists>e. map_of (failedSegments st) k = Some e \<and> jsLess e (Finite u) \<and>
           map_of (failedSegments (download cfg u st seg pieces)) k = None)"
    by (simp add: download_failed clean_map_of [OF assms] split: option.splits)
  ultimately show ?thesis by blast
qed

lemma segmentFailure_blacklist:
  "\<exists>new. effects (segmentFailure cfg u st seg c resp) = effects st @ new \<and>
     (map_of (failedSegments (segmentFailure cfg u st seg c resp)) k = map_of (failedSegments st) k \<or>
      (\<exists>s c ids. segId (heap st s) = k \<and> Emit (SegmentError s c) ids \<in> set new))"
  by (cases "k = segId (heap st seg)") (auto simp: segmentFailure_eq AList.update_conv')

lemma step_blacklist:
  assumes d: "distinct (map fst (failedSegments st))"
  shows "\<exists>new. effects (step cfg u operation st) = effects st @ new \<and>
     (map_of (failedSegments (step cfg u operation st)) k = map_of (failedSegments st) k \<or>
      (\<exists>e. map_of (failedSegments st) k = Some e \<and> jsLess e (Finite u) \<and>
           map_of (failedSegments (step cfg u operation st)) k = None) \<or>
      (\<exists>s c ids. segId (heap st s) = k \<and> Emit (SegmentError s c) ids \<in> set new))"
proof (cases operation)
  case (Download seg pieces)
  with download_blacklist [OF d, of cfg u seg pieces k] show ?thesis by auto
next
  case (UpdatePriority seg)
  from d have d': "distinct (map fst (failedSegments (abort st seg)))"
    by (simp add: abort_failed)
  from abort_effects [of st seg] obtain n where n: "effects (abort st seg) = effects st @ n"
    by blast
  from download_blacklist [OF d', of cfg u seg None k] n UpdatePriority show ?thesis
    by (auto simp: updatePriority_def abort_failed split: option.splits)
next
  case (Abort seg)
  with abort_effects [of st seg] show ?thesis by (auto simp: abort_failed)
next
  case Destroy
  then show ?thesis by (simp add: destroy_def)
next
  case (Progress x prev ev)
  then show ?thesis by (simp add: onProgress_eq)
next
  case (Load x resp)
  let ?st = "writeSegment (listenerSegment x) (\<lambda>s. s\<lparr>responseUrl := responseURL resp\<rparr>) st"
  from onLoad_cases [of cfg u st x resp]
  consider c where "onLoad cfg u st x resp = Done (segmentFailure cfg u st (listenerSegment x) c resp)"
    | data where "onLoad cfg u st x resp =
          Done (segmentDownloadFinished_end ?st (listenerSegment x) data)"
    | v c where "onLoad cfg u st x resp =
          Done (segmentFailure cfg u (perform v ?st) (listenerSegment x) c resp)"
    | v w where "onLoad cfg u st x resp = Awaiting (perform v ?st) w"
    by blast
  then show ?thesis
  proof cases
    case 1
    with Load segmentFailure_blacklist [of cfg u st "listenerSegment x" c resp k] show ?thesis
      by auto
  next
    case 2
    with Load show ?thesis by (simp add: segmentDownloadFinished_end_eq writeSegment_def)
  next
    case 3
    have id: "segId (heap (perform v ?st) s) = segId (heap st s)" for s
      by (simp add: perform_def writeSegment_def)
    from segmentFailure_blacklist [of cfg u "perform v ?st" "listenerSegment x" c resp k]
    obtain new where new:
      "effects (segmentFailure cfg u (perform v ?st) (listenerSegment x) c resp) =
       effects st @ v # new"
      "map_of (failedSegments (segmentFailure cfg u (perform v ?st) (listenerSegment x) c resp)) k =
         map_of (failedSegments st) k \<or>
       (\<exists>s c ids. segId (heap st s) = k \<and> Emit (SegmentError s c) ids \<in> set new)"
      unfolding id by (auto simp: perform_def writeSegment_def)
    with Load 3 show ?thesis by auto
  next
    case 4
    with Load show ?thesis by (simp add: perform_def writeSegment_def)
  qed
next
  case (NetError x resp)
  with segmentFailure_blacklist [of cfg u st "listenerSegment x" NetworkError resp k] show ?thesis
    by (auto simp: onError_def)
next
  case (TimedOut x resp)
  with segmentFailure_blacklist [of cfg u st "listenerSegment x" Timeout resp k] show ?thesis
    by (auto simp: onTimeout_def)
next
  case (Settled w resp)
  show ?thesis
  proof (cases "awaitPromise w")
    case Resolves
    with Settled show ?thesis
      by (simp add: segmentDownloadFinished_resume_def segmentDownloadFinished_end_eq)
  next
    case (Rejects e)
    with Settled segmentFailure_blacklist [of cfg u st "awaitSegment w" "ValidatorRejected e" resp k]
    show ?thesis
      by (auto simp: segmentDownloadFinished_resume_def)
  qed
next
  case (SetPriority seg p)
  then show ?thesis by (simp add: writeSegment_def)
qed

lemma run_effects: "wellFormed st \<Longrightarrow> \<exists>new. effects (run cfg trace st) = effects st @ new"
proof (induction trace arbitrary: st)
  case Nil
  then show ?case by (simp add: run_def)
next
  case (Cons a trace)
  obtain u operation where a: "a = (u, operation)" by (cases a)
  from Cons.prems have d: "distinct (map fst (failedSegments st))"
    by (simp add: wellFormed_def)
  from step_blacklist [OF d, of cfg u operation undefined] obtain n1
    where n1: "effects (step cfg u operation st) = effects st @ n1" by blast
  from Cons.IH [OF wellFormed_step [OF Cons.prems, where cfg = cfg and u = u and operation = operation]]
  obtain n2
    where "effects (run cfg trace (step cfg u operation st)) = effects (step cfg u operation st) @ n2"
    by blast
  with n1 show ?case by (simp add: a run_Cons)
qed

lemma run_blacklist:
  assumes "wellFormed st"
    and "\<forall>(u, operation) \<in> set trace. u \<le> now"
    and "\<forall>s c ids. Emit (SegmentError s c) ids
            \<in> set (drop (length (effects st)) (effects (run cfg trace st))) \<longrightarrow>
            segId (heap st s) \<noteq> k"
  shows "map_of (failedSegments (run cfg trace st)) k = map_of (failedSegments st) k \<or>
     (\<exists>e u. map_of (failedSegments st) k = Some e \<and> jsLess e (Finite u) \<and> u \<le> now \<and>
          map_of (failedSegments (run cfg trace st)) k = None)"
  using assms
proof (induction trace arbitrary: st)
  case Nil
  then show ?case by (simp add: run_def)
next
  case (Cons a trace)
  obtain u operation where a: "a = (u, operation)" by (cases a)
  let ?st = "step cfg u operation st"
  from Cons.prems(1) have d: "distinct (map fst (failedSegments st))"
    by (simp add: wellFormed_def)
  have wf: "wellFormed ?st" by (rule wellFormed_step [OF Cons.prems(1)])
  from Cons.prems(2) a have u: "u \<le> now" and later: "\<forall>(u, operation) \<in> set trace. u \<le> now"
    by auto
  from step_blacklist [OF d, of cfg u operation k] obtain n1
    where n1: "effects ?st = effects st @ n1"
      and one: "map_of (failedSegments ?st) k = map_of (failedSegments st) k \<or>
        (\<exists>e. map_of (failedSegments st) k = Some e \<and> jsLess e (Finite u) \<and>
             map_of (failedSegments ?st) k = None) \<or>
        (\<exists>s c ids. segId (heap st s) = k \<and> Emit (SegmentError s c) ids \<in> set n1)"
    by blast
  from run_effects [OF wf, of cfg trace] obtain n2
    where n2: "effects (run cfg trace ?st) = effects ?st @ n2" by blast
  from Cons.prems(3)
  have quiet: "\<forall>s c ids. Emit (SegmentError s c) ids \<in> set (n1 @ n2) \<longrightarrow> segId (heap st s) \<noteq> k"
    by (simp add: a run_Cons n1 n2)
  then have "\<forall>s c ids. Emit (SegmentError s c) ids
      \<in> set (drop (length (effects ?st)) (effects (run cfg trace ?st))) \<longrightarrow>
      segId (heap ?st s) \<noteq> k"
    by (simp add: n2 step_segId)
  from Cons.IH [OF wf later this]
  have rest: "map_of (failedSegments (run cfg trace ?st)) k = map_of (failedSegments ?st) k \<or>
     (\<exists>e u. map_of (failedSegments ?st) k = Some e \<and> jsLess e (Finite u) \<and> u \<le> now \<and>
          map_of (failedSegments (run cfg trace ?st)) k = None)" .
  from quiet have "\<not> (\<exists>s c ids. segId (heap st s) = k \<and> Emit (SegmentError s c) ids \<in> set n1)"
    by auto
  with one have "map_of (failedSegments ?st) k = map_of (failedSegments st) k \<or>
        (\<exists>e. map_of (failedSegments st) k = Some e \<and> jsLess e (Finite u) \<and>
             map_of (failedSegments ?st) k = None)"
    by blast
  with rest u show ?case
    unfolding a run_Cons by auto
qed

text \<open>C4, as stated, fails in both of its parts. The expiry that \<^verbatim>\<open>segmentFailure\<close>
  stores is the double-precision sum of the time and the timeout, which can lie below the
  exact sum: after a failure at \<open>t = double_0_3\<close> with a timeout of 10000, \<^verbatim>\<open>isFailed\<close>
  answers false at the time \<open>double_10000_3\<close>, which is before \<open>t + 10000\<close>. And a call to
  \<^verbatim>\<open>download\<close> for a segment already in flight returns before the purge: with the id of
  \<open>segB\<close> blacklisted until 10100 and \<open>segA\<close> in flight, a \<^verbatim>\<open>download\<close> of \<open>segA\<close> at
  time 20000 leaves the expired entry in the blacklist. Both runs start from the initial
  state, and \<open>xhrB\<close> is the request that the first of them makes for \<open>segB\<close>.\<close>

theorem blacklist_window_counterexample:
  "httpFailedSegmentTimeout cfg0 = Finite 10000 \<and>
   double_10000_3 < double_0_3 + 10000 \<and>
   \<not> isFailed double_10000_3
       (run cfg0 [(0, Download segA None),
                  (double_0_3, NetError xhrA \<lparr>status = 0, responseBody = [], responseURL = None\<rparr>)]
          (initial heap0)) segA \<and>
   map_option xhr (map_of (xhrRequests (run cfg0 [(0, Download segB None)] (initial heap0))) ''b'') =
     Some xhrB \<and>
   isDownloading
     (run cfg0 [(0, Download segB None),
                (100, NetError xhrB \<lparr>status = 0, responseBody = [], responseURL = None\<rparr>),
                (200, Download segA None)]
        (initial heap0)) segA \<and>
   failedSegments
     (run cfg0 [(0, Download segB None),
                (100, NetError xhrB \<lparr>status = 0, responseBody = [], responseURL = None\<rparr>),
                (200, Download segA None),
                (20000, Download segA None)]
        (initial heap0)) = [(''b'', Finite 10100)] \<and>
   jsLess (Finite 10100) (Finite 20000)"
proof -
  have a: "double_10000_3 < double_0_3 + 10000"
    by (simp add: double_0_3_def double_10000_3_def)
  have b: "\<not> isFailed double_10000_3
       (run cfg0 [(0, Download segA None),
                  (double_0_3, NetError xhrA \<lparr>status = 0, responseBody = [], responseURL = None\<rparr>)]
          (initial heap0)) segA"
    by (simp add: run_def download_def isDownloading_def initial_def segA_def cfg0_def
        xhrA_def heap0_def cleanTimedOutFailedSegments_def emit_def perform_def
        buildSegmentUrl_def resolveSegmentUrl_def rangeRequest_def setupXhrEvents_def
        writeSegment_def truthy_def Let_def onError_def segmentFailure_eq isFailed_def
        roundToDouble_double_0_3 jsGreater_def)
  have c: "map_option xhr
       (map_of (xhrRequests (run cfg0 [(0, Download segB None)] (initial heap0))) ''b'') =
     Some xhrB \<and>
   isDownloading
     (run cfg0 [(0, Download segB None),
                (100, NetError xhrB \<lparr>status = 0, responseBody = [], responseURL = None\<rparr>),
                (200, Download segA None)]
        (initial heap0)) segA \<and>
   failedSegments
     (run cfg0 [(0, Download segB None),
                (100, NetError xhrB \<lparr>status = 0, responseBody = [], responseURL = None\<rparr>),
                (200, Download segA None),
                (20000, Download segA None)]
        (initial heap0)) = [(''b'', Finite 10100)]"
    by (simp add: run_def download_def isDownloading_def initial_def segA_def segB_def cfg0_def
        xhrB_def heap0_def cleanTimedOutFailedSegments_def emit_def perform_def
        buildSegmentUrl_def resolveSegmentUrl_def rangeRequest_def setupXhrEvents_def
        setRequestHeader_def writeSegment_def truthy_def Let_def onError_def segmentFailure_eq
        roundToDouble_10100)
  from a b c show ?thesis
    by (simp add: cfg0_def)
qed

text \<open>C4, amended: let the download of a segment fail at time \<open>t\<close>, in a state where the
  keys of both maps are distinct (as in every reachable state). After any run of further
  operations in which no segment-error is emitted for that segment id again, \<^verbatim>\<open>isFailed\<close>
  asked at a time \<open>now\<close> not earlier than the operations of the run answers true exactly
  when \<open>now\<close> is before the stored expiry, which is the double-precision sum of \<open>t\<close> and
  \<^verbatim>\<open>httpFailedSegmentTimeout\<close>; where that sum is exact, this is \<open>now < t +
  httpFailedSegmentTimeout\<close>. A \<^verbatim>\<open>download\<close> of a segment not in flight leaves in the
  blacklist exactly the entries whose expiry is not before \<open>now\<close>; a \<^verbatim>\<open>download\<close> of a
  segment in flight leaves the blacklist as it is.\<close>

theorem blacklist_window:
  "wellFormed st \<Longrightarrow>
   ((\<forall>(u, operation) \<in> set trace. u \<le> now) \<and>
    (\<forall>s c' ids.
       Emit (SegmentError s c') ids
         \<in> set (drop (length (effects (segmentFailure cfg t st seg c resp)))
                  (effects (run cfg trace (segmentFailure cfg t st seg c resp)))) \<longrightarrow>
       segId (heap st s) \<noteq> segId (heap st seg)) \<longrightarrow>
      isFailed now (run cfg trace (segmentFailure cfg t st seg c resp)) seg =
        jsGreater (jsAdd (Finite t) (httpFailedSegmentTimeout cfg)) (Finite now) \<and>
      (\<forall>d. httpFailedSegmentTimeout cfg = Finite d \<and> roundToDouble (t + d) = Finite (t + d) \<longrightarrow>
         isFailed now (run cfg trace (segmentFailure cfg t st seg c resp)) seg =
           (now < t + d))) \<and>
   (\<not> isDownloading st seg' \<longrightarrow>
      failedSegments (download cfg now st seg' pieces) =
        filter (\<lambda>(k, time). \<not> jsLess time (Finite now)) (failedSegments st) \<and>
      (\<forall>(k, time) \<in> set (failedSegments (download cfg now st seg' pieces)).
         \<not> jsLess time (Finite now))) \<and>
   (isDownloading st seg' \<longrightarrow>
      failedSegments (download cfg now st seg' pieces) = failedSegments st)"
proof (intro conjI impI)
  assume wf: "wellFormed st"
  assume h: "(\<forall>(u, operation) \<in> set trace. u \<le> now) \<and>
    (\<forall>s c' ids.
       Emit (SegmentError s c') ids
         \<in> set (drop (length (effects (segmentFailure cfg t st seg c resp)))
                  (effects (run cfg trace (segmentFailure cfg t st seg c resp)))) \<longrightarrow>
       segId (heap st s) \<noteq> segId (heap st seg))"
  let ?st = "segmentFailure cfg t st seg c resp"
  let ?k = "segId (heap st seg)"
  have id: "segId (heap ?st r) = segId (heap st r)" for r
    by (simp add: segmentFailure_eq)
  have entry: "map_of (failedSegments ?st) ?k = Some (jsAdd (Finite t) (httpFailedSegmentTimeout cfg))"
    by (simp add: segmentFailure_eq AList.update_conv')
  from h have quiet: "\<forall>s c' ids.
       Emit (SegmentError s c') ids
         \<in> set (drop (length (effects ?st)) (effects (run cfg trace ?st))) \<longrightarrow>
       segId (heap ?st s) \<noteq> ?k"
    by (simp add: id)
  from h have times: "\<forall>(u, operation) \<in> set trace. u \<le> now"
    by simp
  from run_blacklist [where st = ?st and trace = trace and now = now and cfg = cfg
      and k = ?k, OF wellFormed_segmentFailure [OF wf] times quiet] entry
  consider "map_of (failedSegments (run cfg trace ?st)) ?k =
      Some (jsAdd (Finite t) (httpFailedSegmentTimeout cfg))"
    | u where "jsLess (jsAdd (Finite t) (httpFailedSegmentTimeout cfg)) (Finite u)" "u \<le> now"
      "map_of (failedSegments (run cfg trace ?st)) ?k = None"
    by auto
  then show stored: "isFailed now (run cfg trace ?st) seg =
      jsGreater (jsAdd (Finite t) (httpFailedSegmentTimeout cfg)) (Finite now)"
  proof cases
    case 1
    then show ?thesis by (simp add: isFailed_def run_segId id)
  next
    case 2
    from jsLess_Finite_trans [OF 2(1) 2(2)] 2(3) show ?thesis
      by (simp add: isFailed_def run_segId id jsGreater_def)
  qed
  show "\<forall>d. httpFailedSegmentTimeout cfg = Finite d \<and> roundToDouble (t + d) = Finite (t + d) \<longrightarrow>
         isFailed now (run cfg trace ?st) seg = (now < t + d)"
    unfolding stored by (simp add: jsGreater_def)
next
  assume wf: "wellFormed st" and nd: "\<not> isDownloading st seg'"
  from wf have d: "distinct (map fst (failedSegments st))"
    by (simp add: wellFormed_def)
  show "failedSegments (download cfg now st seg' pieces) =
        filter (\<lambda>(k, time). \<not> jsLess time (Finite now)) (failedSegments st)"
    using nd by (simp add: download_failed clean_filter [OF d])
  then show "\<forall>(k, time) \<in> set (failedSegments (download cfg now st seg' pieces)).
      \<not> jsLess time (Finite now)"
    by auto
next
  assume "isDownloading st seg'"
  then show "failedSegments (download cfg now st seg' pieces) = failedSegments st"
    by (simp add: download_failed)
qed

theorem blacklist_window_witness:
  "wellFormed stA \<and> \<not> isDownloading stA segB \<and> isDownloading stA segA \<and>
   isFailed 300
     (run cfg0 [(200, Download segB None)]
        (segmentFailure cfg0 100 stA segA Timeout
           \<lparr>status = 0, responseBody = [], responseURL = None\<rparr>)) segA \<and>
   \<not> isFailed 20000
     (run cfg0 [(20000, Download segB None)]
        (segmentFailure cfg0 100 stA segA Timeout
           \<lparr>status = 0, responseBody = [], responseURL = None\<rparr>)) segA \<and>
   failedSegments (download cfg0 300 stA segB None) = [] \<and>
   failedSegments (download cfg0 3 stA segB None) = [(''b'', Finite 5)] \<and>
   failedSegments (download cfg0 300 stA segA2 None) = [(''b'', Finite 5)]"
  using blacklist_window [where st = stA and trace = "[(200, Download segB None)]"
      and now = 300 and cfg = cfg0 and t = 100 and seg = segA and c = Timeout
      and resp = "\<lparr>status = 0, responseBody = [], responseURL = None\<rparr>"
      and seg' = segB and pieces = None]
    blacklist_window [where st = stA and trace = "[(20000, Download segB None)]"
      and now = 20000 and cfg = cfg0 and t = 100 and seg = segA and c = Timeout
      and resp = "\<lparr>status = 0, responseBody = [], responseURL = None\<rparr>"
      and seg' = segB and pieces = None]
    blacklist_window [where st = stA and trace = "[]"
      and now = 3 and cfg = cfg0 and t = 100 and seg = segA and c = Timeout
      and resp = "\<lparr>status = 0, responseBody = [], responseURL = None\<rparr>"
      and seg' = segB and pieces = None]
    blacklist_window [where st = stA and trace = "[]"
      and now = 300 and cfg = cfg0 and t = 100 and seg = segA and c = Timeout
      and resp = "\<lparr>status = 0, responseBody = [], responseURL = None\<rparr>"
      and seg' = segA2 and pieces = None]
  by (simp add: cfg0_def stA_def xhrA_def segA_def segA2_def segB_def reqA_def heap0_def
      wellFormed_def isDownloading_def segmentFailure_eq run_def download_def Let_def
      cleanTimedOutFailedSegments_def emit_def perform_def resolveSegmentUrl_def
      rangeRequest_def setRequestHeader_def setupXhrEvents_def truthy_def writeSegment_def
      isFailed_def jsGreater_def roundToDouble_10100)

end
